theory Spec2Isabelle
  imports Complex_Main
begin

section \<open>Simple-Vosk: speaker matching and result dispatch\<close>

text \<open>
  A shallow embedding of \<^verbatim>\<open>simpleVosk.py\<close>: the constructor of \<^verbatim>\<open>Speech\<close>,
  \<^verbatim>\<open>addFilterWords\<close>, \<^verbatim>\<open>__cosineDist\<close>, \<^verbatim>\<open>__speakerCheck\<close> and
  \<^verbatim>\<open>__checkCallback\<close>. The audio stream, the queue, the thread and the recogniser are
  outside the embedding; \<^verbatim>\<open>__checkCallback\<close> is modelled from the point where
  \<^verbatim>\<open>json.loads\<close> has returned the payload.
\<close>

subsection \<open>Numbers\<close>

text \<open>
  The value of a Python or numpy float: a real number (every finite double is one), one
  of the two infinities, or NaN; the sign of zero is not kept. The comparison \<open>pf_less\<close>
  is the comparison of doubles: it is exact, and false whenever NaN takes part. The
  operations \<open>pf_mult\<close>, \<open>pf_div\<close> and \<open>pf_sub\<close> are the operations of exact arithmetic,
  without rounding and without overflow: they return what the operation on doubles returns
  whenever the exact result is a double. numpy's division by zero returns an infinity or
  NaN (with a warning) and does not raise.
\<close>

datatype pyfloat = Fin real | PInf | NInf | NaN

fun pf_less :: "pyfloat \<Rightarrow> pyfloat \<Rightarrow> bool" where
  "pf_less NaN y = False"
| "pf_less x NaN = False"
| "pf_less (Fin a) (Fin b) = (a < b)"
| "pf_less (Fin a) PInf = True"
| "pf_less (Fin a) NInf = False"
| "pf_less PInf y = False"
| "pf_less NInf NInf = False"
| "pf_less NInf y = True"

fun pf_mult :: "pyfloat \<Rightarrow> pyfloat \<Rightarrow> pyfloat" where
  "pf_mult NaN y = NaN"
| "pf_mult x NaN = NaN"
| "pf_mult (Fin a) (Fin b) = Fin (a * b)"
| "pf_mult (Fin a) PInf = (if a = 0 then NaN else if 0 < a then PInf else NInf)"
| "pf_mult (Fin a) NInf = (if a = 0 then NaN else if 0 < a then NInf else PInf)"
| "pf_mult PInf (Fin b) = (if b = 0 then NaN else if 0 < b then PInf else NInf)"
| "pf_mult NInf (Fin b) = (if b = 0 then NaN else if 0 < b then NInf else PInf)"
| "pf_mult PInf PInf = PInf"
| "pf_mult PInf NInf = NInf"
| "pf_mult NInf PInf = NInf"
| "pf_mult NInf NInf = PInf"

fun pf_div :: "pyfloat \<Rightarrow> pyfloat \<Rightarrow> pyfloat" where
  "pf_div NaN y = NaN"
| "pf_div x NaN = NaN"
| "pf_div (Fin a) (Fin b) =
     (if b \<noteq> 0 then Fin (a / b)
      else if a = 0 then NaN else if 0 < a then PInf else NInf)"
| "pf_div (Fin a) PInf = Fin 0"
| "pf_div (Fin a) NInf = Fin 0"
| "pf_div PInf (Fin b) = (if b < 0 then NInf else PInf)"
| "pf_div NInf (Fin b) = (if b < 0 then PInf else NInf)"
| "pf_div PInf y = NaN"
| "pf_div NInf y = NaN"

fun pf_sub :: "pyfloat \<Rightarrow> pyfloat \<Rightarrow> pyfloat" where
  "pf_sub NaN y = NaN"
| "pf_sub x NaN = NaN"
| "pf_sub (Fin a) (Fin b) = Fin (a - b)"
| "pf_sub (Fin a) PInf = NInf"
| "pf_sub (Fin a) NInf = PInf"
| "pf_sub PInf PInf = NaN"
| "pf_sub PInf y = PInf"
| "pf_sub NInf NInf = NaN"
| "pf_sub NInf y = NInf"

subsection \<open>The session\<close>

text \<open>
  The attributes of a \<^verbatim>\<open>Speech\<close> object, under the names the source gives them. The
  registry \<^verbatim>\<open>__speakSigs\<close> is a Python dict: its keys are unique and it is iterated in
  insertion order, so it is the list of its items. The queue and the thread handle are
  left out, and so is the reference to the callback: a call of the callback is recorded
  as an event instead. The type \<open>'v\<close> is the type of a vector as Python holds it, a list of
  numbers.
\<close>

record 'v session =
  model :: string
  spkModel :: "string option"
  deviceID :: "int option"
  partial :: bool
  filterText :: bool
  textFilters :: "string list"
  verbose :: bool
  speakSigs :: "(string \<times> 'v) list"
  maxSpeakDist :: pyfloat
  printUnknownSigs :: bool
  running :: bool

text \<open>The keyword arguments of the constructor, and their default values.\<close>

record 'v init_args =
  arg_partial :: bool
  arg_model :: string
  arg_speakModel :: "string option"
  arg_signatures :: "(string \<times> 'v) list"
  arg_maxSpeakThresh :: pyfloat
  arg_filterText :: bool
  arg_printUnknownSigs :: bool
  arg_deviceID :: "int option"
  arg_verbose :: bool

definition default_args :: "'v init_args" where
  "default_args =
     \<lparr>arg_partial = False, arg_model = ''model'', arg_speakModel = None,
      arg_signatures = [], arg_maxSpeakThresh = Fin (54 / 100), arg_filterText = True,
      arg_printUnknownSigs = True, arg_deviceID = None, arg_verbose = False\<rparr>"

definition Speech_init :: "'v init_args \<Rightarrow> 'v session" where
  "Speech_init a =
     \<lparr>model = arg_model a, spkModel = arg_speakModel a, deviceID = arg_deviceID a,
      partial = arg_partial a, filterText = arg_filterText a,
      textFilters = [''huh'', ''by'', ''but''],
      verbose = arg_verbose a, speakSigs = arg_signatures a,
      maxSpeakDist = arg_maxSpeakThresh a, printUnknownSigs = arg_printUnknownSigs a,
      running = False\<rparr>"

definition addFilterWords :: "'v session \<Rightarrow> string list \<Rightarrow> 'v session" where
  "addFilterWords s words = s\<lparr>textFilters := textFilters s @ words\<rparr>"

subsection \<open>Payloads, errors and events\<close>

text \<open>
  The payload is the dict that \<^verbatim>\<open>json.loads\<close> returns; the code reads the keys
  \<^verbatim>\<open>text\<close>, \<^verbatim>\<open>partial\<close> and \<^verbatim>\<open>spk\<close>, each of which may be absent.
\<close>

record 'v load =
  load_text :: "string option"
  load_partial :: "string option"
  load_spk :: "'v option"

text \<open>
  \<^verbatim>\<open>np.dot\<close> raises \<^verbatim>\<open>ValueError\<close> on two vectors of different lengths. On a list
  that holds an integer beyond 64 bits, \<^verbatim>\<open>np.array\<close> raises \<^verbatim>\<open>OverflowError\<close> when the list
  also holds a float, and \<^verbatim>\<open>np.linalg.norm\<close> raises \<^verbatim>\<open>TypeError\<close> otherwise.
\<close>

datatype error = ValueError | TypeError | OverflowError

text \<open>What a call does besides returning: the two prints and the call of the callback.\<close>

datatype 'v event =
    PrintDistance string pyfloat
  | PrintUnknown 'v
  | Callback string "string option" bool

subsection \<open>Cosine distance in exact arithmetic\<close>

text \<open>
  \<^verbatim>\<open>np.dot\<close> and \<^verbatim>\<open>np.linalg.norm\<close> on vectors of real numbers, in exact arithmetic, and
  the code of \<^verbatim>\<open>__cosineDist\<close>, \<^verbatim>\<open>__speakerCheck\<close> and \<^verbatim>\<open>__checkCallback\<close> over them.
  This is the run of the code wherever the arithmetic of doubles is exact, as it is on
  the concrete inputs evaluated below. What the code does under rounding, on integers
  that overflow and on lists numpy cannot convert is the subject of the subsection on
  the numeric library, where numpy is a parameter.
\<close>

definition np_dot :: "real list \<Rightarrow> real list \<Rightarrow> error + real" where
  "np_dot x y =
     (if length x = length y then Inr (sum_list (map2 (*) x y)) else Inl ValueError)"

definition np_norm :: "real list \<Rightarrow> real" where
  "np_norm x = sqrt (sum_list (map (\<lambda>a. a * a) x))"

text \<open>
  \<^verbatim>\<open>1 - np.dot(nx, ny) / np.linalg.norm(nx) / np.linalg.norm(ny)\<close>; the method takes
  \<^verbatim>\<open>self\<close>, which is the first argument here.
\<close>

definition cosineDist ::
  "real list session \<Rightarrow> real list \<Rightarrow> real list \<Rightarrow> error + pyfloat" where
  "cosineDist s x y =
     (case np_dot x y of
        Inl e \<Rightarrow> Inl e
      | Inr d \<Rightarrow>
          Inr (pf_sub (Fin 1) (pf_div (pf_div (Fin d) (Fin (np_norm x))) (Fin (np_norm y)))))"

subsection \<open>The speaker matcher\<close>

text \<open>
  The loop of \<^verbatim>\<open>__speakerCheck\<close> over the registry, with the loop variables
  \<^verbatim>\<open>minDist\<close> and \<^verbatim>\<open>bestFit\<close>. It returns the events of the iterations that ran and
  either the error that stopped it or the final values of the two variables.
\<close>

fun speakerLoop ::
  "real list session \<Rightarrow> real list \<Rightarrow> (string \<times> real list) list \<Rightarrow> pyfloat
     \<Rightarrow> string option \<Rightarrow> real list event list \<times> (error + pyfloat \<times> string option)" where
  "speakerLoop s e [] minDist bestFit = ([], Inr (minDist, bestFit))"
| "speakerLoop s e ((person, sig) # rest) minDist bestFit =
     (case cosineDist s sig e of
        Inl err \<Rightarrow> ([], Inl err)
      | Inr d \<Rightarrow>
          (let printed = (if verbose s then [PrintDistance person d] else []);
               (evs, r) = (if pf_less d minDist
                           then speakerLoop s e rest d (Some person)
                           else speakerLoop s e rest minDist bestFit)
           in (printed @ evs, r)))"

definition speakerCheck ::
  "real list session \<Rightarrow> real list load
     \<Rightarrow> real list event list \<times> (error + string option)" where
  "speakerCheck s ld =
     (case load_spk ld of
        None \<Rightarrow> ([], Inr None)
      | Some e \<Rightarrow>
          (case speakerLoop s e (speakSigs s) (pf_mult (maxSpeakDist s) (Fin 2)) None of
             (evs, Inl err) \<Rightarrow> (evs, Inl err)
           | (evs, Inr (minDist, bestFit)) \<Rightarrow>
               if pf_less (maxSpeakDist s) minDist
               then (evs @ (if printUnknownSigs s then [PrintUnknown e] else []), Inr None)
               else (evs, Inr bestFit)))"

subsection \<open>The dispatcher\<close>

definition checkCallback ::
  "real list session \<Rightarrow> real list load \<Rightarrow> real list event list \<times> (error + unit)" where
  "checkCallback s ld =
     (case load_text ld of
        Some t \<Rightarrow>
          if 0 < length t then
            if filterText s \<and> t \<in> set (textFilters s) then ([], Inr ())
            else
              (case spkModel s of
                 None \<Rightarrow> ([Callback t None True], Inr ())
               | Some m \<Rightarrow>
                   (case speakerCheck s ld of
                      (evs, Inl err) \<Rightarrow> (evs, Inl err)
                    | (evs, Inr speaker) \<Rightarrow> (evs @ [Callback t speaker True], Inr ())))
          else ([], Inr ())
      | None \<Rightarrow>
          if partial s then
            (case load_partial ld of
               Some t \<Rightarrow>
                 if 0 < length t then
                   if filterText s \<and> t \<in> set (textFilters s) then ([], Inr ())
                   else ([Callback t None False], Inr ())
                 else ([], Inr ())
             | None \<Rightarrow> ([], Inr ()))
          else ([], Inr ()))"

text \<open>The calls of the callback among the events of a run, in order.\<close>

fun callbacks :: "'v event list \<Rightarrow> (string \<times> string option \<times> bool) list" where
  "callbacks [] = []"
| "callbacks (Callback t sp fin # evs) = (t, sp, fin) # callbacks evs"
| "callbacks (ev # evs) = callbacks evs"


subsection \<open>The speaker matcher over the numeric library\<close>

text \<open>
  numpy and the arithmetic of floats are not code of the repository; here they are a
  parameter. \<open>dot_of lib x y\<close> is what \<^verbatim>\<open>np.dot(np.array(x), np.array(y))\<close> returns or
  raises, \<open>norm_of lib x\<close> what \<^verbatim>\<open>np.linalg.norm(np.array(x))\<close> returns or raises;
  \<open>float_div\<close>, \<open>float_sub\<close> and \<open>float_mult\<close> are the division, the subtraction and the
  multiplication of floats, which round. Nothing is assumed of them.
\<close>

record 'v numlib =
  dot_of :: "'v \<Rightarrow> 'v \<Rightarrow> error + pyfloat"
  norm_of :: "'v \<Rightarrow> error + pyfloat"
  float_div :: "pyfloat \<Rightarrow> pyfloat \<Rightarrow> pyfloat"
  float_sub :: "pyfloat \<Rightarrow> pyfloat \<Rightarrow> pyfloat"
  float_mult :: "pyfloat \<Rightarrow> pyfloat \<Rightarrow> pyfloat"

text \<open>
  \<^verbatim>\<open>__cosineDist\<close>: the two conversions and the dot product first, then the norm of
  \<^verbatim>\<open>nx\<close>, the first division, the norm of \<^verbatim>\<open>ny\<close>, the second division and the
  subtraction from 1.
\<close>

definition cosineDistWith :: "'v numlib \<Rightarrow> 'v session \<Rightarrow> 'v \<Rightarrow> 'v \<Rightarrow> error + pyfloat" where
  "cosineDistWith lib s x y =
     (case dot_of lib x y of
        Inl err \<Rightarrow> Inl err
      | Inr d \<Rightarrow>
          (case norm_of lib x of
             Inl err \<Rightarrow> Inl err
           | Inr nx \<Rightarrow>
               (case norm_of lib y of
                  Inl err \<Rightarrow> Inl err
                | Inr ny \<Rightarrow>
                    Inr (float_sub lib (Fin 1) (float_div lib (float_div lib d nx) ny)))))"

text \<open>The loop of \<^verbatim>\<open>__speakerCheck\<close> and \<^verbatim>\<open>__speakerCheck\<close> itself.\<close>

fun speakerLoopWith ::
  "'v numlib \<Rightarrow> 'v session \<Rightarrow> 'v \<Rightarrow> (string \<times> 'v) list \<Rightarrow> pyfloat \<Rightarrow> string option
     \<Rightarrow> 'v event list \<times> (error + pyfloat \<times> string option)" where
  "speakerLoopWith lib s e [] minDist bestFit = ([], Inr (minDist, bestFit))"
| "speakerLoopWith lib s e ((person, sig) # rest) minDist bestFit =
     (case cosineDistWith lib s sig e of
        Inl err \<Rightarrow> ([], Inl err)
      | Inr d \<Rightarrow>
          (let printed = (if verbose s then [PrintDistance person d] else []);
               (evs, r) = (if pf_less d minDist
                           then speakerLoopWith lib s e rest d (Some person)
                           else speakerLoopWith lib s e rest minDist bestFit)
           in (printed @ evs, r)))"

definition speakerCheckWith ::
  "'v numlib \<Rightarrow> 'v session \<Rightarrow> 'v load \<Rightarrow> 'v event list \<times> (error + string option)" where
  "speakerCheckWith lib s ld =
     (case load_spk ld of
        None \<Rightarrow> ([], Inr None)
      | Some e \<Rightarrow>
          (case speakerLoopWith lib s e (speakSigs s)
                  (float_mult lib (maxSpeakDist s) (Fin 2)) None of
             (evs, Inl err) \<Rightarrow> (evs, Inl err)
           | (evs, Inr (minDist, bestFit)) \<Rightarrow>
               if pf_less (maxSpeakDist s) minDist
               then (evs @ (if printUnknownSigs s then [PrintUnknown e] else []), Inr None)
               else (evs, Inr bestFit)))"

text \<open>The library of exact arithmetic, with which the definitions above are these.\<close>

definition exact_lib :: "real list numlib" where
  "exact_lib =
     \<lparr>dot_of = (\<lambda>x y. case np_dot x y of Inl err \<Rightarrow> Inl err | Inr d \<Rightarrow> Inr (Fin d)),
      norm_of = (\<lambda>x. Inr (Fin (np_norm x))),
      float_div = pf_div, float_sub = pf_sub, float_mult = pf_mult\<rparr>"

text \<open>
  An entry of the registry is the first to attain the minimum of the distances \<open>d\<close>: every
  entry before it is farther, no entry after it is nearer.
\<close>

definition first_minimum ::
  "('v \<Rightarrow> pyfloat) \<Rightarrow> (string \<times> 'v) list \<Rightarrow> (string \<times> 'v) list \<Rightarrow> string \<Rightarrow> 'v
     \<Rightarrow> (string \<times> 'v) list \<Rightarrow> bool" where
  "first_minimum d reg pre name ref post \<longleftrightarrow>
     reg = pre @ (name, ref) # post
     \<and> (\<forall>p \<in> set pre. pf_less (d ref) (d (snd p)))
     \<and> (\<forall>p \<in> set post. \<not> pf_less (d (snd p)) (d ref))"

subsection \<open>The matcher of the specification\<close>

text \<open>
  The specification's words, for comparison with the code. The cosine distance is
  1 - dot(reference, embedding) / (norm(reference) * norm(embedding)), on real numbers.
\<close>

definition spec_cosine_distance :: "real list \<Rightarrow> real list \<Rightarrow> real" where
  "spec_cosine_distance r e =
     1 - (\<Sum>(a, b)\<leftarrow>zip r e. a * b) / (sqrt (\<Sum>a\<leftarrow>r. a\<^sup>2) * sqrt (\<Sum>b\<leftarrow>e. b\<^sup>2))"

text \<open>
  The minimum distance over the registry and its name; among entries at the same
  distance the one seen first wins.
\<close>

fun spec_best_match :: "real list \<Rightarrow> (string \<times> real list) list \<Rightarrow> (string \<times> real) option" where
  "spec_best_match e [] = None"
| "spec_best_match e ((name, ref) # rest) =
     (case spec_best_match e rest of
        None \<Rightarrow> Some (name, spec_cosine_distance ref e)
      | Some (name', d') \<Rightarrow>
          if spec_cosine_distance ref e \<le> d' then Some (name, spec_cosine_distance ref e)
          else Some (name', d'))"

text \<open>
  None if the minimum exceeds the threshold (or the registry is empty), otherwise the
  best-matching name.
\<close>

definition spec_match :: "(string \<times> real list) list \<Rightarrow> real \<Rightarrow> real list \<Rightarrow> string option" where
  "spec_match reg t e =
     (case spec_best_match e reg of
        None \<Rightarrow> None
      | Some (name, d) \<Rightarrow> if t < d then None else Some name)"

section \<open>Properties\<close>

subsection \<open>Events and the loop\<close>

lemma callbacks_append: "callbacks (xs @ ys) = callbacks xs @ callbacks ys"
  by (induction xs rule: callbacks.induct) simp_all

lemma speakerLoop_Cons:
  "speakerLoop s e ((person, sg) # rest) m b =
     (case cosineDist s sg e of
        Inl err \<Rightarrow> ([], Inl err)
      | Inr d \<Rightarrow>
          ((if verbose s then [PrintDistance person d] else [])
             @ fst (if pf_less d m then speakerLoop s e rest d (Some person)
                    else speakerLoop s e rest m b),
           snd (if pf_less d m then speakerLoop s e rest d (Some person)
                else speakerLoop s e rest m b)))"
  by (simp add: Let_def case_prod_beta split: sum.splits)

lemma callbacks_speakerLoop: "callbacks (fst (speakerLoop s e reg m b)) = []"
proof (induction reg arbitrary: m b)
  case Nil
  show ?case by simp
next
  case (Cons p rest)
  obtain person sg where p: "p = (person, sg)" by (cases p)
  show ?case
    unfolding p speakerLoop_Cons
    by (simp add: Cons.IH callbacks_append split: sum.splits)
qed

lemma callbacks_speakerCheck: "callbacks (fst (speakerCheck s ld)) = []"
proof (cases "load_spk ld")
  case None
  then show ?thesis by (simp add: speakerCheck_def)
next
  case (Some e)
  obtain evs r where loop:
    "speakerLoop s e (speakSigs s) (pf_mult (maxSpeakDist s) (Fin 2)) None = (evs, r)"
    by (cases "speakerLoop s e (speakSigs s) (pf_mult (maxSpeakDist s) (Fin 2)) None")
  have "callbacks evs = []"
    using callbacks_speakerLoop [of s e "speakSigs s" "pf_mult (maxSpeakDist s) (Fin 2)" None]
    by (simp add: loop)
  then show ?thesis
    by (simp add: speakerCheck_def Some loop callbacks_append split: sum.splits prod.splits)
qed

lemma snd_speakerLoop_Cons:
  "snd (speakerLoop s e ((person, sg) # rest) m b) =
     (case cosineDist s sg e of
        Inl err \<Rightarrow> Inl err
      | Inr d \<Rightarrow> if pf_less d m then snd (speakerLoop s e rest d (Some person))
                 else snd (speakerLoop s e rest m b))"
  unfolding speakerLoop_Cons by (simp split: sum.splits)

lemma speakerLoop_cong:
  "verbose s1 = verbose s2 \<Longrightarrow> speakerLoop s1 e reg m b = speakerLoop s2 e reg m b"
proof (induction reg arbitrary: m b)
  case Nil
  show ?case by simp
next
  case (Cons p rest)
  obtain person sg where p: "p = (person, sg)" by (cases p)
  have cd: "cosineDist s1 sg e = cosineDist s2 sg e"
    by (simp add: cosineDist_def)
  show ?case
    unfolding p speakerLoop_Cons cd
    by (simp add: Cons.IH [OF Cons.prems] Cons.prems split: sum.splits)
qed

lemma snd_speakerLoop_cong:
  "snd (speakerLoop s1 e reg m b) = snd (speakerLoop s2 e reg m b)"
proof (induction reg arbitrary: m b)
  case Nil
  show ?case by simp
next
  case (Cons p rest)
  obtain person sg where p: "p = (person, sg)" by (cases p)
  have cd: "cosineDist s1 sg e = cosineDist s2 sg e"
    by (simp add: cosineDist_def)
  show ?case
    unfolding p snd_speakerLoop_Cons cd
    by (simp add: Cons.IH split: sum.splits)
qed

lemma speakerCheck_cong:
  assumes "verbose s1 = verbose s2" "speakSigs s1 = speakSigs s2"
    "maxSpeakDist s1 = maxSpeakDist s2" "printUnknownSigs s1 = printUnknownSigs s2"
  shows "speakerCheck s1 ld = speakerCheck s2 ld"
  unfolding speakerCheck_def assms(2-4) speakerLoop_cong [OF assms(1)] ..

lemma checkCallback_final:
  assumes "load_text ld = Some t"
  shows "checkCallback s ld =
     (if t = [] \<or> (filterText s \<and> t \<in> set (textFilters s)) then ([], Inr ())
      else case spkModel s of
             None \<Rightarrow> ([Callback t None True], Inr ())
           | Some m \<Rightarrow>
               (case snd (speakerCheck s ld) of
                  Inl err \<Rightarrow> (fst (speakerCheck s ld), Inl err)
                | Inr speaker \<Rightarrow> (fst (speakerCheck s ld) @ [Callback t speaker True], Inr ())))"
  using assms by (auto simp: checkCallback_def split: option.splits sum.splits prod.splits)

lemma checkCallback_partial:
  assumes "load_text ld = None"
  shows "checkCallback s ld =
     (case load_partial ld of
        None \<Rightarrow> ([], Inr ())
      | Some t \<Rightarrow>
          if partial s \<and> t \<noteq> [] \<and> \<not> (filterText s \<and> t \<in> set (textFilters s))
          then ([Callback t None False], Inr ()) else ([], Inr ()))"
  using assms by (auto simp: checkCallback_def split: option.splits)

lemmas run_defs =
  checkCallback_def speakerCheck_def cosineDist_def np_dot_def np_norm_def
  Speech_init_def default_args_def addFilterWords_def


subsection \<open>Cosine distance on real vectors\<close>

lemma sum_squares_nonneg: "0 \<le> sum_list (map (\<lambda>a. a * a) (x::real list))"
  by (induction x) auto

lemma sum_squares_zero: "sum_list (map (\<lambda>a. a * a) (x::real list)) = 0 \<Longrightarrow> \<forall>a \<in> set x. a = 0"
proof (induction x)
  case Nil
  show ?case by simp
next
  case (Cons a x)
  have "0 \<le> a * a" by simp
  with Cons.prems sum_squares_nonneg [of x]
  have "a * a = 0" and "sum_list (map (\<lambda>a. a * a) x) = 0"
    by (simp_all add: add_nonneg_eq_0_iff)
  with Cons.IH show ?case by simp
qed

lemma np_norm_zero: "np_norm x = 0 \<Longrightarrow> \<forall>a \<in> set x. a = 0"
  using sum_squares_zero [of x] by (simp add: np_norm_def)

lemma dot_zero_right: "\<forall>b \<in> set y. b = 0 \<Longrightarrow> sum_list (map2 (*) x y) = (0::real)"
proof (induction y arbitrary: x)
  case Nil
  show ?case by simp
next
  case (Cons b y)
  then show ?case by (cases x) simp_all
qed

lemma cauchy_schwarz_list:
  "length x = length y \<Longrightarrow>
   (sum_list (map2 (*) x y))\<^sup>2
     \<le> sum_list (map (\<lambda>a. a * a) x) * sum_list (map (\<lambda>a. a * a) (y::real list))"
proof (induction x y rule: list_induct2)
  case Nil
  then show ?case by simp
next
  case (Cons a xs b ys)
  define S where "S = sum_list (map2 (*) xs ys)"
  define A where "A = sum_list (map (\<lambda>a. a * a) xs)"
  define B where "B = sum_list (map (\<lambda>a. a * a) ys)"
  have A0: "0 \<le> A" and B0: "0 \<le> B"
    unfolding A_def B_def by (rule sum_squares_nonneg)+
  have IH: "S\<^sup>2 \<le> A * B"
    using Cons.IH unfolding S_def A_def B_def .
  have "\<bar>S\<bar> \<le> sqrt (A * B)"
    using IH by (metis real_sqrt_abs real_sqrt_le_mono)
  then have S: "\<bar>S\<bar> \<le> sqrt A * sqrt B"
    by (simp add: real_sqrt_mult)
  define u where "u = \<bar>a\<bar> * sqrt B"
  define v where "v = \<bar>b\<bar> * sqrt A"
  have uv: "2 * u * v \<le> u\<^sup>2 + v\<^sup>2"
    using sum_squares_bound [of u v] by simp
  have u2: "u\<^sup>2 = a\<^sup>2 * B" and v2: "v\<^sup>2 = b\<^sup>2 * A"
    using A0 B0 by (simp_all add: u_def v_def power_mult_distrib)
  have "2 * (a * b) * S \<le> 2 * \<bar>a * b\<bar> * \<bar>S\<bar>"
    by (metis abs_ge_self abs_mult abs_numeral mult.assoc)
  also have "\<dots> \<le> 2 * \<bar>a * b\<bar> * (sqrt A * sqrt B)"
    using S by (intro mult_left_mono) auto
  also have "\<dots> = 2 * u * v"
    by (simp add: u_def v_def abs_mult)
  also have "\<dots> \<le> a\<^sup>2 * B + b\<^sup>2 * A"
    using uv u2 v2 by simp
  finally have cross: "2 * (a * b) * S \<le> a\<^sup>2 * B + b\<^sup>2 * A" .
  have "(a * b + S)\<^sup>2 = (a * b)\<^sup>2 + 2 * (a * b) * S + S\<^sup>2"
    by (simp add: power2_sum)
  also have "\<dots> \<le> (a * b)\<^sup>2 + (a\<^sup>2 * B + b\<^sup>2 * A) + A * B"
    using cross IH by linarith
  also have "\<dots> = (a * a + A) * (b * b + B)"
    by (simp add: algebra_simps power2_eq_square)
  finally show ?case
    by (simp add: S_def A_def B_def)
qed

lemma spec_cosine_distance_np:
  "spec_cosine_distance r e = 1 - sum_list (map2 (*) r e) / (np_norm r * np_norm e)"
  by (simp add: spec_cosine_distance_def np_norm_def power2_eq_square)

lemma spec_cosine_distance_nonneg:
  assumes "length r = length e"
  shows "0 \<le> spec_cosine_distance r e"
proof -
  let ?d = "sum_list (map2 (*) r e)"
  have "?d \<le> \<bar>?d\<bar>" by simp
  also have "\<dots> = sqrt (?d\<^sup>2)" by simp
  also have "\<dots> \<le> sqrt (sum_list (map (\<lambda>a. a * a) r) * sum_list (map (\<lambda>a. a * a) e))"
    using cauchy_schwarz_list [OF assms] by (rule real_sqrt_le_mono)
  also have "\<dots> = np_norm r * np_norm e"
    by (simp add: np_norm_def real_sqrt_mult)
  finally have le: "?d \<le> np_norm r * np_norm e" .
  have nn: "0 \<le> np_norm r * np_norm e"
    by (simp add: np_norm_def sum_squares_nonneg)
  have "?d / (np_norm r * np_norm e) \<le> 1"
  proof (cases "np_norm r * np_norm e = 0")
    case True
    show ?thesis unfolding True by simp
  next
    case False
    with nn have "0 < np_norm r * np_norm e" by (metis order_le_less)
    with le show ?thesis by (simp add: divide_le_eq)
  qed
  then show ?thesis
    by (simp add: spec_cosine_distance_np)
qed

lemma cosineDist_finite:
  assumes "length r = length e" "np_norm r \<noteq> 0" "np_norm e \<noteq> 0"
  shows "cosineDist s r e = Inr (Fin (spec_cosine_distance r e))"
  using assms by (simp add: cosineDist_def np_dot_def spec_cosine_distance_np)

lemma cosineDist_mismatch:
  "length r \<noteq> length e \<Longrightarrow> cosineDist s r e = Inl ValueError"
  by (simp add: cosineDist_def np_dot_def)

lemma cosineDist_zero_norm:
  assumes "length r = length e" "np_norm e = 0"
  shows "cosineDist s r e = Inr NaN"
proof -
  have "sum_list (map2 (*) r e) = 0"
    using np_norm_zero [OF assms(2)] by (rule dot_zero_right)
  then show ?thesis
    using assms by (simp add: cosineDist_def np_dot_def)
qed

subsection \<open>The loop of the matcher\<close>

lemma speakerLoop_no_update:
  "\<forall>p \<in> set reg. \<exists>d. cosineDist s (snd p) e = Inr d \<and> \<not> pf_less d m \<Longrightarrow>
   snd (speakerLoop s e reg m b) = Inr (m, b)"
proof (induction reg)
  case Nil
  show ?case by simp
next
  case (Cons p rest)
  obtain person sg where p: "p = (person, sg)" by (cases p)
  from Cons.prems obtain d where "cosineDist s sg e = Inr d" "\<not> pf_less d m"
    by (auto simp: p)
  with Cons show ?case
    by (simp add: p snd_speakerLoop_Cons del: speakerLoop.simps)
qed

lemma speakerLoop_first_min:
  assumes "\<forall>p \<in> set (pre @ (name, ref) # post). cosineDist s (snd p) e = Inr (Fin (f (snd p)))"
    and "f ref < m"
    and "\<forall>p \<in> set pre. f ref < f (snd p)"
    and "\<forall>p \<in> set post. f ref \<le> f (snd p)"
  shows "snd (speakerLoop s e (pre @ (name, ref) # post) (Fin m) b)
           = Inr (Fin (f ref), Some name)"
  using assms
proof (induction pre arbitrary: m b)
  case Nil
  have "\<forall>p \<in> set post. \<exists>d. cosineDist s (snd p) e = Inr d \<and> \<not> pf_less d (Fin (f ref))"
    using Nil.prems(1,4) by (auto simp: not_less)
  then have "snd (speakerLoop s e post (Fin (f ref)) (Some name)) = Inr (Fin (f ref), Some name)"
    by (rule speakerLoop_no_update)
  with Nil.prems(1,2) show ?case
    by (simp add: snd_speakerLoop_Cons del: speakerLoop.simps)
next
  case (Cons p pre)
  obtain person sg where p: "p = (person, sg)" by (cases p)
  have cd: "cosineDist s sg e = Inr (Fin (f sg))" and lt: "f ref < f sg"
    using Cons.prems(1,3) by (simp_all add: p)
  have rest: "\<forall>p \<in> set (pre @ (name, ref) # post). cosineDist s (snd p) e = Inr (Fin (f (snd p)))"
    and pre: "\<forall>p \<in> set pre. f ref < f (snd p)"
    using Cons.prems(1,3) by simp_all
  show ?case
  proof (cases "f sg < m")
    case True
    with Cons.IH [OF rest lt pre Cons.prems(4), of "Some person"] cd show ?thesis
      by (simp add: p snd_speakerLoop_Cons del: speakerLoop.simps)
  next
    case False
    with Cons.IH [OF rest Cons.prems(2) pre Cons.prems(4), of b] cd show ?thesis
      by (simp add: p snd_speakerLoop_Cons del: speakerLoop.simps)
  qed
qed

lemma spec_best_match_first_min:
  "reg \<noteq> [] \<Longrightarrow>
   \<exists>name ref pre post.
     spec_best_match e reg = Some (name, spec_cosine_distance ref e)
     \<and> reg = pre @ (name, ref) # post
     \<and> (\<forall>p \<in> set pre. spec_cosine_distance ref e < spec_cosine_distance (snd p) e)
     \<and> (\<forall>p \<in> set post. spec_cosine_distance ref e \<le> spec_cosine_distance (snd p) e)"
proof (induction reg)
  case Nil
  then show ?case by simp
next
  case (Cons q rest)
  obtain n r where q: "q = (n, r)" by (cases q)
  show ?case
  proof (cases "rest = []")
    case True
    have "spec_best_match e (q # rest) = Some (n, spec_cosine_distance r e)
       \<and> q # rest = [] @ (n, r) # []
       \<and> (\<forall>p \<in> set []. spec_cosine_distance r e < spec_cosine_distance (snd p) e)
       \<and> (\<forall>p \<in> set []. spec_cosine_distance r e \<le> spec_cosine_distance (snd p) e)"
      by (simp add: q True)
    then show ?thesis by blast
  next
    case False
    from Cons.IH [OF False] obtain name ref pre post where
      bm: "spec_best_match e rest = Some (name, spec_cosine_distance ref e)"
      and dec: "rest = pre @ (name, ref) # post"
      and pre: "\<forall>p \<in> set pre. spec_cosine_distance ref e < spec_cosine_distance (snd p) e"
      and post: "\<forall>p \<in> set post. spec_cosine_distance ref e \<le> spec_cosine_distance (snd p) e"
      by blast
    show ?thesis
    proof (cases "spec_cosine_distance r e \<le> spec_cosine_distance ref e")
      case True
      have all: "\<forall>p \<in> set rest. spec_cosine_distance r e \<le> spec_cosine_distance (snd p) e"
        using True pre post by (auto simp: dec)
      have "spec_best_match e (q # rest) = Some (n, spec_cosine_distance r e)
         \<and> q # rest = [] @ (n, r) # rest
         \<and> (\<forall>p \<in> set []. spec_cosine_distance r e < spec_cosine_distance (snd p) e)
         \<and> (\<forall>p \<in> set rest. spec_cosine_distance r e \<le> spec_cosine_distance (snd p) e)"
        using True all by (simp add: q bm)
      then show ?thesis by blast
    next
      case False
      have "spec_best_match e (q # rest) = Some (name, spec_cosine_distance ref e)"
        using False by (simp add: q bm)
      moreover have "q # rest = (q # pre) @ (name, ref) # post"
        by (simp add: dec)
      moreover have "\<forall>p \<in> set (q # pre).
          spec_cosine_distance ref e < spec_cosine_distance (snd p) e"
        using False pre by (simp add: q)
      ultimately have "spec_best_match e (q # rest) = Some (name, spec_cosine_distance ref e)
         \<and> q # rest = (q # pre) @ (name, ref) # post
         \<and> (\<forall>p \<in> set (q # pre). spec_cosine_distance ref e < spec_cosine_distance (snd p) e)
         \<and> (\<forall>p \<in> set post. spec_cosine_distance ref e \<le> spec_cosine_distance (snd p) e)"
        using post by blast
      then show ?thesis by blast
    qed
  qed
qed

subsection \<open>The matcher against the specification\<close>

lemma snd_speakerCheck:
  "load_spk ld = Some e \<Longrightarrow>
   snd (speakerCheck s ld) =
     (case snd (speakerLoop s e (speakSigs s) (pf_mult (maxSpeakDist s) (Fin 2)) None) of
        Inl err \<Rightarrow> Inl err
      | Inr (minDist, bestFit) \<Rightarrow>
          if pf_less (maxSpeakDist s) minDist then Inr None else Inr bestFit)"
  by (simp add: speakerCheck_def split: prod.splits sum.splits)

lemma speakerCheck_no_update:
  assumes "load_spk ld = Some e"
    and "\<forall>p \<in> set (speakSigs s).
           \<exists>d. cosineDist s (snd p) e = Inr d \<and> \<not> pf_less d (pf_mult (maxSpeakDist s) (Fin 2))"
  shows "snd (speakerCheck s ld) = Inr None"
  using speakerLoop_no_update [OF assms(2), of None]
  by (simp add: snd_speakerCheck [OF assms(1)])

text \<open>
  In exact arithmetic. Let the payload carry an embedding, the registry be non-empty, the
  threshold be a real number, and the embedding and every registered reference be
  vectors of one common length and of non-zero norm. Then the distance computed for each
  registered pair is the cosine distance of the specification, and, unless the threshold
  is 0 and some reference is at distance exactly 0, the matcher returns what
  \<open>spec_match\<close> returns.
\<close>

lemma speakerCheck_exact_spec_match:
  assumes "load_spk ld = Some e"
    and "speakSigs s \<noteq> []"
    and "maxSpeakDist s = Fin t"
    and "\<forall>p \<in> set (speakSigs s). length (snd p) = length e \<and> np_norm (snd p) \<noteq> 0"
    and "np_norm e \<noteq> 0"
    and "t = 0 \<longrightarrow> (\<forall>p \<in> set (speakSigs s). spec_cosine_distance (snd p) e \<noteq> 0)"
  shows "(\<forall>p \<in> set (speakSigs s).
            cosineDist s (snd p) e = Inr (Fin (spec_cosine_distance (snd p) e)))
       \<and> snd (speakerCheck s ld) = Inr (spec_match (speakSigs s) t e)
       \<and> (\<exists>name ref pre post.
            speakSigs s = pre @ (name, ref) # post
            \<and> (\<forall>p \<in> set pre. spec_cosine_distance ref e < spec_cosine_distance (snd p) e)
            \<and> (\<forall>p \<in> set post. spec_cosine_distance ref e \<le> spec_cosine_distance (snd p) e)
            \<and> snd (speakerCheck s ld)
                = Inr (if spec_cosine_distance ref e \<le> t then Some name else None))"
proof -
  let ?f = "\<lambda>r. spec_cosine_distance r e"
  have cd: "\<forall>p \<in> set (speakSigs s). cosineDist s (snd p) e = Inr (Fin (?f (snd p)))"
    using assms(4,5) by (simp add: cosineDist_finite)
  from spec_best_match_first_min [OF assms(2), of e] obtain name ref pre post where
    bm: "spec_best_match e (speakSigs s) = Some (name, ?f ref)"
    and dec: "speakSigs s = pre @ (name, ref) # post"
    and pre: "\<forall>p \<in> set pre. ?f ref < ?f (snd p)"
    and post: "\<forall>p \<in> set post. ?f ref \<le> ?f (snd p)"
    by blast
  have mem: "(name, ref) \<in> set (speakSigs s)"
    by (simp add: dec)
  have nonneg: "0 \<le> ?f ref"
    using assms(4) mem by (intro spec_cosine_distance_nonneg) auto
  have least: "\<forall>p \<in> set (speakSigs s). ?f ref \<le> ?f (snd p)"
    using pre post by (auto simp: dec less_imp_le)
  have spec: "spec_match (speakSigs s) t e = (if ?f ref \<le> t then Some name else None)"
    by (simp add: spec_match_def bm not_less)
  have run: "snd (speakerCheck s ld) = Inr (if ?f ref \<le> t then Some name else None)"
  proof (cases "?f ref < t * 2")
    case True
    have "snd (speakerLoop s e (pre @ (name, ref) # post) (Fin (t * 2)) None)
            = Inr (Fin (?f ref), Some name)"
      using cd [unfolded dec] True pre post by (rule speakerLoop_first_min)
    then show ?thesis
      by (simp add: snd_speakerCheck [OF assms(1)] assms(3) dec not_less)
  next
    case False
    have "\<forall>p \<in> set (speakSigs s).
            \<exists>d. cosineDist s (snd p) e = Inr d \<and> \<not> pf_less d (pf_mult (maxSpeakDist s) (Fin 2))"
      using cd least False by (auto simp: assms(3))
    then have none: "snd (speakerCheck s ld) = Inr None"
      by (rule speakerCheck_no_update [OF assms(1)])
    have "t < ?f ref"
    proof (cases "t = 0")
      case True
      with assms(6) mem have "?f ref \<noteq> 0" by auto
      with nonneg True show ?thesis by simp
    next
      case False
      with \<open>\<not> ?f ref < t * 2\<close> nonneg show ?thesis by linarith
    qed
    with none show ?thesis by simp
  qed
  from cd run spec dec pre post show ?thesis by auto
qed

subsection \<open>The matcher over the numeric library\<close>

lemma pf_less_trans: "pf_less x y \<Longrightarrow> pf_less y z \<Longrightarrow> pf_less x z"
  by (cases x; cases y; cases z) simp_all

lemma pf_less_irrefl: "\<not> pf_less x x"
  by (cases x) simp_all

lemma pf_less_asym: "pf_less x y \<Longrightarrow> \<not> pf_less y x"
  by (cases x; cases y) simp_all

lemma pf_less_total: "x \<noteq> NaN \<Longrightarrow> y \<noteq> NaN \<Longrightarrow> pf_less x y \<or> x = y \<or> pf_less y x"
  by (cases x; cases y) auto

lemma pf_less_not_NaN: "pf_less x y \<Longrightarrow> x \<noteq> NaN \<and> y \<noteq> NaN"
  by (cases x; cases y) simp_all

lemma pf_less_le_trans:
  "pf_less x y \<Longrightarrow> \<not> pf_less z y \<Longrightarrow> z \<noteq> NaN \<Longrightarrow> pf_less x z"
  using pf_less_total [of y z] pf_less_not_NaN [of x y] pf_less_trans [of x y z] by auto

lemma pf_le_less_trans:
  "\<not> pf_less y x \<Longrightarrow> pf_less y z \<Longrightarrow> x \<noteq> NaN \<Longrightarrow> pf_less x z"
  using pf_less_total [of x y] pf_less_not_NaN [of y z] pf_less_trans [of x y z] by auto

lemma snd_speakerLoopWith_Cons:
  "snd (speakerLoopWith lib s e ((person, sg) # rest) m b) =
     (case cosineDistWith lib s sg e of
        Inl err \<Rightarrow> Inl err
      | Inr d \<Rightarrow> if pf_less d m then snd (speakerLoopWith lib s e rest d (Some person))
                 else snd (speakerLoopWith lib s e rest m b))"
  by (simp add: Let_def case_prod_beta split: sum.splits)

lemma snd_speakerCheckWith:
  "load_spk ld = Some e \<Longrightarrow>
   snd (speakerCheckWith lib s ld) =
     (case snd (speakerLoopWith lib s e (speakSigs s)
                  (float_mult lib (maxSpeakDist s) (Fin 2)) None) of
        Inl err \<Rightarrow> Inl err
      | Inr (minDist, bestFit) \<Rightarrow>
          if pf_less (maxSpeakDist s) minDist then Inr None else Inr bestFit)"
  by (simp add: speakerCheckWith_def split: prod.splits sum.splits)

lemma speakerLoopWith_no_update:
  "\<forall>p \<in> set reg. \<exists>d. cosineDistWith lib s (snd p) e = Inr d \<and> \<not> pf_less d m \<Longrightarrow>
   snd (speakerLoopWith lib s e reg m b) = Inr (m, b)"
proof (induction reg)
  case Nil
  show ?case by simp
next
  case (Cons p rest)
  obtain person sg where p: "p = (person, sg)" by (cases p)
  from Cons.prems obtain d where "cosineDistWith lib s sg e = Inr d" "\<not> pf_less d m"
    by (auto simp: p)
  with Cons show ?case
    by (simp add: p snd_speakerLoopWith_Cons del: speakerLoopWith.simps)
qed

lemma speakerLoopWith_first_min:
  assumes "\<forall>p \<in> set (pre @ (name, ref) # post). cosineDistWith lib s (snd p) e = Inr (d (snd p))"
    and "pf_less (d ref) m"
    and "\<forall>p \<in> set pre. pf_less (d ref) (d (snd p))"
    and "\<forall>p \<in> set post. \<not> pf_less (d (snd p)) (d ref)"
  shows "snd (speakerLoopWith lib s e (pre @ (name, ref) # post) m b) = Inr (d ref, Some name)"
  using assms
proof (induction pre arbitrary: m b)
  case Nil
  have "\<forall>p \<in> set post. \<exists>x. cosineDistWith lib s (snd p) e = Inr x \<and> \<not> pf_less x (d ref)"
    using Nil.prems(1,4) by auto
  then have "snd (speakerLoopWith lib s e post (d ref) (Some name)) = Inr (d ref, Some name)"
    by (rule speakerLoopWith_no_update)
  with Nil.prems(1,2) show ?case
    by (simp add: snd_speakerLoopWith_Cons del: speakerLoopWith.simps)
next
  case (Cons p pre)
  obtain person sg where p: "p = (person, sg)" by (cases p)
  have cd: "cosineDistWith lib s sg e = Inr (d sg)" and lt: "pf_less (d ref) (d sg)"
    using Cons.prems(1,3) by (simp_all add: p)
  have rest: "\<forall>p \<in> set (pre @ (name, ref) # post).
      cosineDistWith lib s (snd p) e = Inr (d (snd p))"
    and pre: "\<forall>p \<in> set pre. pf_less (d ref) (d (snd p))"
    using Cons.prems(1,3) by simp_all
  show ?case
  proof (cases "pf_less (d sg) m")
    case True
    with Cons.IH [OF rest lt pre Cons.prems(4), of "Some person"] cd show ?thesis
      by (simp add: p snd_speakerLoopWith_Cons del: speakerLoopWith.simps)
  next
    case False
    with Cons.IH [OF rest Cons.prems(2) pre Cons.prems(4), of b] cd show ?thesis
      by (simp add: p snd_speakerLoopWith_Cons del: speakerLoopWith.simps)
  qed
qed

lemma speakerLoopWith_raises:
  assumes "\<forall>p \<in> set pre. \<exists>x. cosineDistWith lib s (snd p) e = Inr x"
    and "cosineDistWith lib s ref e = Inl err"
  shows "snd (speakerLoopWith lib s e (pre @ (name, ref) # post) m b) = Inl err"
  using assms(1)
proof (induction pre arbitrary: m b)
  case Nil
  show ?case
    by (simp add: snd_speakerLoopWith_Cons assms(2) del: speakerLoopWith.simps)
next
  case (Cons p pre)
  obtain person sg where p: "p = (person, sg)" by (cases p)
  from Cons.prems obtain x where x: "cosineDistWith lib s sg e = Inr x"
    by (auto simp: p)
  have rest: "\<forall>p \<in> set pre. \<exists>x. cosineDistWith lib s (snd p) e = Inr x"
    using Cons.prems by simp
  show ?case
    by (simp add: p x snd_speakerLoopWith_Cons Cons.IH [OF rest] del: speakerLoopWith.simps)
qed

lemma first_minimum_exists:
  assumes "reg \<noteq> []" and "\<forall>p \<in> set reg. d (snd p) \<noteq> NaN"
  shows "\<exists>pre name ref post. first_minimum d reg pre name ref post"
  using assms
proof (induction reg)
  case Nil
  then show ?case by simp
next
  case (Cons q rest)
  obtain n r where q: "q = (n, r)" by (cases q)
  show ?case
  proof (cases "rest = []")
    case True
    have "first_minimum d (q # rest) [] n r []"
      by (simp add: first_minimum_def q True)
    then show ?thesis by blast
  next
    case False
    from Cons.IH [OF False] Cons.prems(2) obtain pre name ref post where
      fm: "first_minimum d rest pre name ref post"
      by auto
    then have dec: "rest = pre @ (name, ref) # post"
      and pre: "\<forall>p \<in> set pre. pf_less (d ref) (d (snd p))"
      and post: "\<forall>p \<in> set post. \<not> pf_less (d (snd p)) (d ref)"
      by (simp_all add: first_minimum_def)
    have nr: "d r \<noteq> NaN" and nref: "d ref \<noteq> NaN"
      using Cons.prems(2) by (simp_all add: q dec)
    show ?thesis
    proof (cases "pf_less (d ref) (d r)")
      case True
      then have "first_minimum d (q # rest) (q # pre) name ref post"
        using pre post by (simp add: first_minimum_def q dec)
      then show ?thesis by blast
    next
      case False
      have least: "\<forall>p \<in> set rest. \<not> pf_less (d (snd p)) (d ref)"
        using pre post pf_less_asym pf_less_irrefl by (auto simp: dec)
      have "\<forall>p \<in> set rest. \<not> pf_less (d (snd p)) (d r)"
      proof (intro ballI notI)
        fix p assume p: "p \<in> set rest" and lt: "pf_less (d (snd p)) (d r)"
        from pf_less_total [OF nr nref] False
        have "d r = d ref \<or> pf_less (d r) (d ref)" by blast
        then have "pf_less (d (snd p)) (d ref)"
        proof
          assume "d r = d ref"
          with lt show ?thesis by simp
        next
          assume "pf_less (d r) (d ref)"
          with lt show ?thesis by (rule pf_less_trans)
        qed
        with least p show False by blast
      qed
      then have "first_minimum d (q # rest) [] n r rest"
        by (simp add: first_minimum_def q)
      then show ?thesis by blast
    qed
  qed
qed

lemma cosineDist_exact_lib: "cosineDistWith exact_lib s x y = cosineDist s x y"
  by (simp add: cosineDistWith_def cosineDist_def exact_lib_def split: sum.splits)

lemma speakerLoop_exact_lib: "speakerLoopWith exact_lib s e reg m b = speakerLoop s e reg m b"
proof (induction reg arbitrary: m b)
  case Nil
  show ?case by simp
next
  case (Cons p rest)
  obtain person sg where p: "p = (person, sg)" by (cases p)
  show ?case
    by (simp add: p cosineDist_exact_lib Cons.IH Let_def split: sum.splits)
qed

lemma speakerCheck_exact_lib: "speakerCheckWith exact_lib s ld = speakerCheck s ld"
proof -
  have "float_mult exact_lib = pf_mult"
    by (simp add: exact_lib_def)
  then show ?thesis
    by (simp add: speakerCheckWith_def speakerCheck_def speakerLoop_exact_lib
        cong: option.case_cong)
qed

text \<open>
  Claim C1, as amended. Let the payload carry an embedding, and let numpy and the
  arithmetic of floats be any whatever.
  \<^item> The distance the code computes for a pair is the value, in that arithmetic, of
    1 - dot(reference, embedding) / norm(reference) / norm(embedding), whenever the dot
    product and the two norms return; in exact arithmetic, on a reference and an
    embedding of one length and of non-zero norm, it is the cosine distance of the
    specification.
  \<^item> When the computation returns a distance other than NaN for every entry, a non-empty
    registry has a first entry attaining the minimum of the computed distances, and the
    matcher returns its name when that minimum does not exceed the threshold and none
    when it does; this is stated wherever the threshold is below its double (as every
    positive threshold is), or the minimum is below the double of the threshold, or the
    minimum exceeds the threshold.
  \<^item> When the computation raises for an entry, as \<^verbatim>\<open>np.dot\<close> does with \<^verbatim>\<open>ValueError\<close> on
    a reference whose length is not the embedding's, and returns for every entry before
    it, the matcher raises that error.
\<close>

theorem C1_speaker_match:
  assumes "load_spk ld = Some e"
  shows "(\<forall>r dt nr ne.
            dot_of lib r e = Inr dt \<and> norm_of lib r = Inr nr \<and> norm_of lib e = Inr ne \<longrightarrow>
            cosineDistWith lib s r e
              = Inr (float_sub lib (Fin 1) (float_div lib (float_div lib dt nr) ne)))
       \<and> ((\<forall>p \<in> set (speakSigs s).
              cosineDistWith lib s (snd p) e = Inr (d (snd p)) \<and> d (snd p) \<noteq> NaN) \<longrightarrow>
            (speakSigs s \<noteq> [] \<longrightarrow>
               (\<exists>pre name ref post. first_minimum d (speakSigs s) pre name ref post))
          \<and> (\<forall>pre name ref post.
               first_minimum d (speakSigs s) pre name ref post
               \<and> (pf_less (maxSpeakDist s) (float_mult lib (maxSpeakDist s) (Fin 2))
                   \<or> pf_less (d ref) (float_mult lib (maxSpeakDist s) (Fin 2))
                   \<or> pf_less (maxSpeakDist s) (d ref)) \<longrightarrow>
               snd (speakerCheckWith lib s ld)
                 = Inr (if pf_less (maxSpeakDist s) (d ref) then None else Some name)))
       \<and> (\<forall>pre name ref post err.
            speakSigs s = pre @ (name, ref) # post
            \<and> (\<forall>p \<in> set pre. \<exists>x. cosineDistWith lib s (snd p) e = Inr x)
            \<and> cosineDistWith lib s ref e = Inl err \<longrightarrow>
            snd (speakerCheckWith lib s ld) = Inl err)
       \<and> (\<forall>r err. dot_of lib r e = Inl err \<longrightarrow> cosineDistWith lib s r e = Inl err)
       \<and> (length r' = length e' \<and> np_norm r' \<noteq> 0 \<and> np_norm e' \<noteq> 0 \<longrightarrow>
            cosineDistWith exact_lib s' r' e' = Inr (Fin (spec_cosine_distance r' e')))
       \<and> (length r' \<noteq> length e' \<longrightarrow> cosineDistWith exact_lib s' r' e' = Inl ValueError)"
proof (intro conjI allI impI)
  fix r dt nr ne
  assume "dot_of lib r e = Inr dt \<and> norm_of lib r = Inr nr \<and> norm_of lib e = Inr ne"
  then show "cosineDistWith lib s r e
      = Inr (float_sub lib (Fin 1) (float_div lib (float_div lib dt nr) ne))"
    by (simp add: cosineDistWith_def)
next
  assume "\<forall>p \<in> set (speakSigs s).
      cosineDistWith lib s (snd p) e = Inr (d (snd p)) \<and> d (snd p) \<noteq> NaN"
    and "speakSigs s \<noteq> []"
  then show "\<exists>pre name ref post. first_minimum d (speakSigs s) pre name ref post"
    by (intro first_minimum_exists) simp_all
next
  fix pre name ref post
  let ?t = "maxSpeakDist s"
  let ?m = "float_mult lib (maxSpeakDist s) (Fin 2)"
  assume all: "\<forall>p \<in> set (speakSigs s).
      cosineDistWith lib s (snd p) e = Inr (d (snd p)) \<and> d (snd p) \<noteq> NaN"
    and h: "first_minimum d (speakSigs s) pre name ref post
      \<and> (pf_less ?t ?m \<or> pf_less (d ref) ?m \<or> pf_less ?t (d ref))"
  from h have dec: "speakSigs s = pre @ (name, ref) # post"
    and pre: "\<forall>p \<in> set pre. pf_less (d ref) (d (snd p))"
    and post: "\<forall>p \<in> set post. \<not> pf_less (d (snd p)) (d ref)"
    by (simp_all add: first_minimum_def)
  have cd: "\<forall>p \<in> set (pre @ (name, ref) # post). cosineDistWith lib s (snd p) e = Inr (d (snd p))"
    using all by (simp add: dec)
  have nref: "d ref \<noteq> NaN"
    using all by (simp add: dec)
  show "snd (speakerCheckWith lib s ld)
      = Inr (if pf_less ?t (d ref) then None else Some name)"
  proof (cases "pf_less (d ref) ?m")
    case True
    have "snd (speakerLoopWith lib s e (pre @ (name, ref) # post) ?m None)
        = Inr (d ref, Some name)"
      using cd True pre post by (rule speakerLoopWith_first_min)
    then show ?thesis
      by (simp add: snd_speakerCheckWith [OF assms] dec)
  next
    case False
    have "\<forall>p \<in> set (speakSigs s). \<not> pf_less (d (snd p)) ?m"
    proof (intro ballI notI)
      fix p assume p: "p \<in> set (speakSigs s)" and lt: "pf_less (d (snd p)) ?m"
      from p have "p \<in> set pre \<or> p = (name, ref) \<or> p \<in> set post"
        by (auto simp: dec)
      then have "pf_less (d ref) ?m"
      proof (elim disjE)
        assume "p \<in> set pre"
        with pre have "pf_less (d ref) (d (snd p))" by blast
        then show ?thesis using lt by (rule pf_less_trans)
      next
        assume "p = (name, ref)"
        with lt show ?thesis by simp
      next
        assume "p \<in> set post"
        with post have "\<not> pf_less (d (snd p)) (d ref)" by blast
        then show ?thesis using lt nref by (rule pf_le_less_trans)
      qed
      with False show False by blast
    qed
    with all have "\<forall>p \<in> set (speakSigs s).
        \<exists>x. cosineDistWith lib s (snd p) e = Inr x \<and> \<not> pf_less x ?m"
      by auto
    then have "snd (speakerLoopWith lib s e (speakSigs s) ?m None) = Inr (?m, None)"
      by (rule speakerLoopWith_no_update)
    then have none: "snd (speakerCheckWith lib s ld) = Inr None"
      by (simp add: snd_speakerCheckWith [OF assms])
    from h False have "pf_less ?t ?m \<or> pf_less ?t (d ref)" by blast
    then have "pf_less ?t (d ref)"
    proof
      assume "pf_less ?t ?m"
      then show ?thesis using False nref by (rule pf_less_le_trans)
    qed
    with none show ?thesis by simp
  qed
next
  fix pre name ref post err
  assume "speakSigs s = pre @ (name, ref) # post
      \<and> (\<forall>p \<in> set pre. \<exists>x. cosineDistWith lib s (snd p) e = Inr x)
      \<and> cosineDistWith lib s ref e = Inl err"
  then show "snd (speakerCheckWith lib s ld) = Inl err"
    using speakerLoopWith_raises [of pre lib s e ref err name post]
    by (simp add: snd_speakerCheckWith [OF assms])
next
  fix r err
  assume "dot_of lib r e = Inl err"
  then show "cosineDistWith lib s r e = Inl err"
    by (simp add: cosineDistWith_def)
next
  assume "length r' = length e' \<and> np_norm r' \<noteq> 0 \<and> np_norm e' \<noteq> 0"
  then show "cosineDistWith exact_lib s' r' e' = Inr (Fin (spec_cosine_distance r' e'))"
    by (simp add: cosineDist_exact_lib cosineDist_finite)
next
  assume "length r' \<noteq> length e'"
  then show "cosineDistWith exact_lib s' r' e' = Inl ValueError"
    by (simp add: cosineDist_exact_lib cosineDist_mismatch)
qed

text \<open>
  The claim as first stated covers every non-empty registry and every embedding. With the
  threshold 0 and a reference in the direction of the embedding, the minimum distance is 0
  and does not exceed the threshold, yet the matcher returns none. With a reference of
  two components and an embedding of one, \<^verbatim>\<open>np.dot\<close> raises and the matcher returns
  nothing.
\<close>

theorem C1_counterexample:
  "spec_match [(''A'', [1, 0])] 0 [1, 0] = Some ''A''
   \<and> snd (speakerCheck
        (Speech_init (default_args
           \<lparr>arg_signatures := [(''A'', [1, 0])], arg_maxSpeakThresh := Fin 0\<rparr>))
        \<lparr>load_text = Some ''hi'', load_partial = None, load_spk = Some [1, 0]\<rparr>) = Inr None
   \<and> snd (speakerCheck
        (Speech_init (default_args\<lparr>arg_signatures := [(''A'', [1, 0])]\<rparr>))
        \<lparr>load_text = Some ''hi'', load_partial = None, load_spk = Some [1]\<rparr>)
      = Inl ValueError"
  by (simp add: run_defs spec_match_def spec_cosine_distance_def)

text \<open>
  The amended statement in exact arithmetic, which is the arithmetic of doubles on this
  input: a registry of three, where the second and the third entry are both at the minimum
  distance 0, and the default threshold 0.54. The second is named.
\<close>

theorem C1_speaker_match_witness:
  "load_spk \<lparr>load_text = Some ''hi'', load_partial = None, load_spk = Some [0, 2 :: real]\<rparr>
     = Some [0, 2]
   \<and> first_minimum (\<lambda>r. Fin (spec_cosine_distance r [0, 2]))
        [(''A'', [1, 0]), (''B'', [0, 1]), (''C'', [0, 2])]
        [(''A'', [1, 0])] ''B'' [0, 1] [(''C'', [0, 2])]
   \<and> cosineDistWith exact_lib
        (Speech_init (default_args
           \<lparr>arg_signatures := [(''A'', [1, 0]), (''B'', [0, 1]), (''C'', [0, 2])]\<rparr>))
        [0, 2] [0, 2] = Inr (Fin 0)
   \<and> snd (speakerCheckWith exact_lib
        (Speech_init (default_args
           \<lparr>arg_signatures := [(''A'', [1, 0]), (''B'', [0, 1]), (''C'', [0, 2])]\<rparr>))
        \<lparr>load_text = Some ''hi'', load_partial = None, load_spk = Some [0, 2]\<rparr>)
     = Inr (Some ''B'')"
proof -
  let ?reg = "[(''A'', [1, 0]), (''B'', [0, 1]), (''C'', [0, 2::real])]"
  let ?s = "(Speech_init (default_args\<lparr>arg_signatures := ?reg\<rparr>)) :: real list session"
  let ?ld = "\<lparr>load_text = Some ''hi'', load_partial = None, load_spk = Some [0, 2]\<rparr>
    :: real list load"
  let ?d = "\<lambda>r. Fin (spec_cosine_distance r [0, 2])"
  have sigs: "speakSigs ?s = ?reg"
    by (simp add: Speech_init_def)
  have thr: "maxSpeakDist ?s = Fin (54 / 100)"
    by (simp add: Speech_init_def default_args_def)
  have h1: "load_spk ?ld = Some [0, 2]" by simp
  have h2: "\<forall>p \<in> set (speakSigs ?s).
      cosineDistWith exact_lib ?s (snd p) [0, 2] = Inr (?d (snd p)) \<and> ?d (snd p) \<noteq> NaN"
    by (simp add: sigs cosineDist_exact_lib cosineDist_def np_dot_def np_norm_def
        spec_cosine_distance_def)
  have h3: "first_minimum ?d (speakSigs ?s) [(''A'', [1, 0])] ''B'' [0, 1] [(''C'', [0, 2])]"
    by (simp add: sigs first_minimum_def spec_cosine_distance_def)
  have h4: "pf_less (maxSpeakDist ?s) (float_mult exact_lib (maxSpeakDist ?s) (Fin 2))"
    by (simp add: thr exact_lib_def)
  have h5: "\<not> pf_less (maxSpeakDist ?s) (?d [0, 1])"
    by (simp add: thr spec_cosine_distance_def)
  have h6: "length [0, 2 :: real] = length [0, 2 :: real] \<and> np_norm [0, 2] \<noteq> 0
      \<and> np_norm [0, 2] \<noteq> 0"
    by (simp add: np_norm_def)
  have v: "spec_cosine_distance [0, 2] [0, 2] = 0"
    by (simp add: spec_cosine_distance_def)
  note inst = C1_speaker_match [OF h1, where lib = exact_lib and s = ?s and d = ?d
      and r' = "[0, 2]" and e' = "[0, 2]" and s' = ?s]
  from inst h2 h3 h4
  have "snd (speakerCheckWith exact_lib ?s ?ld)
      = Inr (if pf_less (maxSpeakDist ?s) (?d [0, 1]) then None else Some ''B'')"
    by blast
  with h5 have r: "snd (speakerCheckWith exact_lib ?s ?ld) = Inr (Some ''B'')"
    by simp
  from inst h6
  have "cosineDistWith exact_lib ?s [0, 2] [0, 2] = Inr (Fin (spec_cosine_distance [0, 2] [0, 2]))"
    by blast
  with v have c: "cosineDistWith exact_lib ?s [0, 2] [0, 2] = Inr (Fin 0)"
    by simp
  from h1 h3 r c show ?thesis
    by (simp add: sigs)
qed

text \<open>
  Claim C2, at the input where the code and the claim part: the threshold is 0 and the
  registry holds the embedding itself under the name \<^verbatim>\<open>Bob\<close>. The distance the code
  computes is exactly 0, and the matcher returns none, not \<^verbatim>\<open>Bob\<close>: \<^verbatim>\<open>minDist\<close> starts
  at twice the threshold, which is 0, and \<^verbatim>\<open>dist < minDist\<close> is false.
\<close>

theorem C2_zero_threshold_exact_match:
  "cosineDist
      (Speech_init (default_args
         \<lparr>arg_signatures := [(''Alice'', [1, 0, 0]), (''Bob'', [0, 1, 0])],
           arg_maxSpeakThresh := Fin 0\<rparr>)) [0, 1, 0] [0, 1, 0] = Inr (Fin 0)
   \<and> speakerCheck
      (Speech_init (default_args
         \<lparr>arg_signatures := [(''Alice'', [1, 0, 0]), (''Bob'', [0, 1, 0])],
           arg_maxSpeakThresh := Fin 0\<rparr>))
      \<lparr>load_text = Some ''hi'', load_partial = None, load_spk = Some [0, 1, 0]\<rparr>
     = ([], Inr None)"
  by (simp add: run_defs)

lemma speakerCheck_mismatch:
  assumes "load_spk ld = Some e" and "\<exists>p \<in> set (speakSigs s). length (snd p) \<noteq> length e"
  shows "snd (speakerCheck s ld) = Inl ValueError"
proof -
  from assms(2) obtain pre q post where dec: "speakSigs s = pre @ q # post"
    and q: "length (snd q) \<noteq> length e"
    and pre: "\<forall>p \<in> set pre. \<not> length (snd p) \<noteq> length e"
    using split_list_first_prop [of "speakSigs s" "\<lambda>p. length (snd p) \<noteq> length e"]
    by blast
  obtain name ref where nr: "q = (name, ref)" by (cases q)
  have ret: "\<forall>p \<in> set pre. \<exists>x. cosineDistWith exact_lib s (snd p) e = Inr x"
    using pre by (simp add: cosineDist_exact_lib cosineDist_def np_dot_def)
  have err: "cosineDistWith exact_lib s ref e = Inl ValueError"
    using q by (simp add: nr cosineDist_exact_lib cosineDist_mismatch)
  have "snd (speakerLoopWith exact_lib s e (pre @ (name, ref) # post)
          (pf_mult (maxSpeakDist s) (Fin 2)) None) = Inl ValueError"
    using ret err by (rule speakerLoopWith_raises)
  then show ?thesis
    by (simp add: snd_speakerCheck [OF assms(1)] speakerLoop_exact_lib dec nr)
qed

text \<open>
  Claim C3, as amended. The matcher returns none, and raises nothing, whatever the
  threshold (a number, an infinity or NaN), when the payload has no embedding, when the
  registry is empty, and when the embedding has norm zero (the empty embedding among
  them) and the length of every registered reference. When the length of some registered
  reference is not the length of the embedding, the matcher raises \<^verbatim>\<open>ValueError\<close>.
\<close>

theorem C3_degenerate_inputs:
  "(load_spk ld = None \<longrightarrow> speakerCheck s ld = ([], Inr None))
   \<and> (speakSigs s = [] \<longrightarrow> snd (speakerCheck s ld) = Inr None)
   \<and> (load_spk ld = Some e \<and> np_norm e = 0
        \<and> (\<forall>p \<in> set (speakSigs s). length (snd p) = length e) \<longrightarrow>
      snd (speakerCheck s ld) = Inr None)
   \<and> (load_spk ld = Some e \<and> (\<exists>p \<in> set (speakSigs s). length (snd p) \<noteq> length e) \<longrightarrow>
      snd (speakerCheck s ld) = Inl ValueError)"
proof (intro conjI impI)
  assume "load_spk ld = None"
  then show "speakerCheck s ld = ([], Inr None)"
    by (simp add: speakerCheck_def)
next
  assume "speakSigs s = []"
  then show "snd (speakerCheck s ld) = Inr None"
    by (simp add: speakerCheck_def split: option.splits)
next
  assume h: "load_spk ld = Some e \<and> np_norm e = 0
        \<and> (\<forall>p \<in> set (speakSigs s). length (snd p) = length e)"
  then have "\<forall>p \<in> set (speakSigs s). cosineDist s (snd p) e = Inr NaN"
    by (simp add: cosineDist_zero_norm)
  then have "\<forall>p \<in> set (speakSigs s).
      \<exists>d. cosineDist s (snd p) e = Inr d \<and> \<not> pf_less d (pf_mult (maxSpeakDist s) (Fin 2))"
    by simp
  with h show "snd (speakerCheck s ld) = Inr None"
    by (intro speakerCheck_no_update) simp_all
next
  assume "load_spk ld = Some e \<and> (\<exists>p \<in> set (speakSigs s). length (snd p) \<noteq> length e)"
  then show "snd (speakerCheck s ld) = Inl ValueError"
    using speakerCheck_mismatch [of ld e s] by blast
qed

text \<open>
  The claim as first stated includes the empty embedding against any registry. Against a
  reference of two components \<^verbatim>\<open>np.dot\<close> raises.
\<close>

theorem C3_counterexample:
  "snd (speakerCheck
        (Speech_init (default_args\<lparr>arg_signatures := [(''A'', [1, 0])]\<rparr>))
        \<lparr>load_text = Some ''hi'', load_partial = None, load_spk = Some []\<rparr>)
     = Inl ValueError"
  by (simp add: run_defs)

text \<open>
  The amended statement on a payload without embedding, on an empty registry with the
  threshold NaN, on the zero embedding with an infinite threshold, and on the empty
  embedding against an empty reference.
\<close>

theorem C3_degenerate_inputs_witness:
  "speakerCheck (Speech_init (default_args\<lparr>arg_signatures := [(''A'', [1, 0])]\<rparr>))
        \<lparr>load_text = Some ''hi'', load_partial = None, load_spk = None\<rparr> = ([], Inr None)
   \<and> snd (speakerCheck (Speech_init (default_args\<lparr>arg_maxSpeakThresh := NaN\<rparr>))
        \<lparr>load_text = Some ''hi'', load_partial = None, load_spk = Some [1, 2]\<rparr>) = Inr None
   \<and> snd (speakerCheck (Speech_init (default_args
           \<lparr>arg_signatures := [(''A'', [1, 0])], arg_maxSpeakThresh := PInf\<rparr>))
        \<lparr>load_text = Some ''hi'', load_partial = None, load_spk = Some [0, 0]\<rparr>) = Inr None
   \<and> snd (speakerCheck (Speech_init (default_args\<lparr>arg_signatures := [(''A'', [])]\<rparr>))
        \<lparr>load_text = Some ''hi'', load_partial = None, load_spk = Some []\<rparr>) = Inr None"
proof -
  let ?s1 = "(Speech_init (default_args\<lparr>arg_signatures := [(''A'', [1, 0])]\<rparr>)) :: real list session"
  let ?l1 = "\<lparr>load_text = Some ''hi'', load_partial = None, load_spk = None\<rparr> :: real list load"
  let ?s2 = "(Speech_init (default_args\<lparr>arg_maxSpeakThresh := NaN\<rparr>)) :: real list session"
  let ?l2 = "\<lparr>load_text = Some ''hi'', load_partial = None, load_spk = Some [1, 2]\<rparr> :: real list load"
  let ?s3 = "(Speech_init (default_args
           \<lparr>arg_signatures := [(''A'', [1, 0])], arg_maxSpeakThresh := PInf\<rparr>)) :: real list session"
  let ?l3 = "\<lparr>load_text = Some ''hi'', load_partial = None, load_spk = Some [0, 0]\<rparr> :: real list load"
  let ?s4 = "(Speech_init (default_args\<lparr>arg_signatures := [(''A'', [])]\<rparr>)) :: real list session"
  let ?l4 = "\<lparr>load_text = Some ''hi'', load_partial = None, load_spk = Some []\<rparr> :: real list load"
  have h1: "load_spk ?l1 = None" by simp
  have h2: "speakSigs ?s2 = []"
    by (simp add: Speech_init_def default_args_def)
  have h3: "load_spk ?l3 = Some [0, 0] \<and> np_norm [0, 0] = 0
        \<and> (\<forall>p \<in> set (speakSigs ?s3). length (snd p) = length [0, 0 :: real])"
    by (simp add: Speech_init_def np_norm_def)
  have h4: "load_spk ?l4 = Some [] \<and> np_norm [] = 0
        \<and> (\<forall>p \<in> set (speakSigs ?s4). length (snd p) = length ([] :: real list))"
    by (simp add: Speech_init_def np_norm_def)
  note r1 = C3_degenerate_inputs [of ?l1 ?s1, THEN conjunct1, rule_format, OF h1]
  note r2 = C3_degenerate_inputs [of ?l2 ?s2, THEN conjunct2, THEN conjunct1, rule_format, OF h2]
  note r3 = C3_degenerate_inputs [of ?l3 ?s3 "[0, 0]", THEN conjunct2, THEN conjunct2,
      THEN conjunct1, rule_format, OF h3]
  note r4 = C3_degenerate_inputs [of ?l4 ?s4 "[]", THEN conjunct2, THEN conjunct2,
      THEN conjunct1, rule_format, OF h4]
  from r1 r2 r3 r4 show ?thesis by simp
qed

subsection \<open>Dispatch of a final result\<close>

text \<open>
  Claim C4, as amended. For a payload with the key \<^verbatim>\<open>text\<close>: the callback is not called
  when the text is empty, and not called when \<^verbatim>\<open>filterText\<close> is set and the text is an
  element of the filter list. Otherwise, with no speaker model the callback is called
  exactly once with speaker none and \<^verbatim>\<open>isFull\<close> true; with a speaker model it is called
  exactly once with the name the matcher returns and \<^verbatim>\<open>isFull\<close> true when the matcher
  returns, and is not called, the error leaving \<^verbatim>\<open>__checkCallback\<close>, when the matcher
  raises.
\<close>

theorem C4_final_dispatch:
  assumes "load_text ld = Some t"
  shows "(t = [] \<longrightarrow> callbacks (fst (checkCallback s ld)) = [])
       \<and> (filterText s \<and> t \<in> set (textFilters s) \<longrightarrow> callbacks (fst (checkCallback s ld)) = [])
       \<and> (t \<noteq> [] \<and> \<not> (filterText s \<and> t \<in> set (textFilters s)) \<longrightarrow>
            (spkModel s = None \<longrightarrow> callbacks (fst (checkCallback s ld)) = [(t, None, True)])
          \<and> (spkModel s \<noteq> None \<longrightarrow>
               (\<forall>speaker. snd (speakerCheck s ld) = Inr speaker \<longrightarrow>
                  callbacks (fst (checkCallback s ld)) = [(t, speaker, True)]
                  \<and> snd (checkCallback s ld) = Inr ())
             \<and> (\<forall>err. snd (speakerCheck s ld) = Inl err \<longrightarrow>
                  callbacks (fst (checkCallback s ld)) = []
                  \<and> snd (checkCallback s ld) = Inl err)))"
  using callbacks_speakerCheck [of s ld]
  by (auto simp: checkCallback_final [OF assms] callbacks_append split: option.splits)

text \<open>
  The claim as first stated promises one call for every final result with a non-empty,
  unfiltered text. With a speaker model, a registered reference of two components and an
  embedding of one, \<^verbatim>\<open>np.dot\<close> raises and the callback is never reached.
\<close>

theorem C4_counterexample:
  "load_text \<lparr>load_text = Some ''hi'', load_partial = None, load_spk = Some [1]\<rparr> = Some ''hi''
   \<and> ''hi'' \<noteq> []
   \<and> ''hi'' \<notin> set (textFilters (Speech_init (default_args
        \<lparr>arg_speakModel := Some ''spk'', arg_signatures := [(''A'', [1, 0])]\<rparr>)))
   \<and> checkCallback (Speech_init (default_args
        \<lparr>arg_speakModel := Some ''spk'', arg_signatures := [(''A'', [1, 0])]\<rparr>))
        \<lparr>load_text = Some ''hi'', load_partial = None, load_spk = Some [1]\<rparr>
      = ([], Inl ValueError)"
  by (simp add: run_defs)

text \<open>The amended statement at a final result whose embedding matches the registry.\<close>

theorem C4_final_dispatch_witness:
  "load_text \<lparr>load_text = Some ''hi'', load_partial = None, load_spk = Some [2, 0]\<rparr> = Some ''hi''
   \<and> callbacks (fst (checkCallback (Speech_init (default_args
        \<lparr>arg_speakModel := Some ''spk'', arg_signatures := [(''A'', [1, 0])]\<rparr>))
        \<lparr>load_text = Some ''hi'', load_partial = None, load_spk = Some [2, 0]\<rparr>))
      = [(''hi'', Some ''A'', True)]"
proof -
  let ?s = "(Speech_init (default_args
        \<lparr>arg_speakModel := Some ''spk'', arg_signatures := [(''A'', [1, 0])]\<rparr>)) :: real list session"
  let ?ld = "\<lparr>load_text = Some ''hi'', load_partial = None, load_spk = Some [2, 0]\<rparr> :: real list load"
  have h: "load_text ?ld = Some ''hi''" by simp
  have m: "snd (speakerCheck ?s ?ld) = Inr (Some ''A'')"
    by (simp add: run_defs)
  have f: "\<not> (filterText ?s \<and> ''hi'' \<in> set (textFilters ?s))" and k: "spkModel ?s \<noteq> None"
    by (simp_all add: run_defs)
  show ?thesis
    using h m f k C4_final_dispatch [OF h, of ?s] by simp
qed

subsection \<open>Dispatch of a partial result\<close>

text \<open>
  Claim C5, as amended. A partial result (a payload without the key \<^verbatim>\<open>text\<close> and with
  the key \<^verbatim>\<open>partial\<close>) reaches the callback if and only if \<^verbatim>\<open>partial\<close> mode is on, its
  text is non-empty and the text is not filtered; it then reaches it exactly once, with
  speaker none and \<^verbatim>\<open>isFull\<close> false. Setting the \<^verbatim>\<open>partial\<close> flag to any value leaves the
  whole outcome of a final result as it was.
\<close>

theorem C5_partial_dispatch:
  "(load_text ld = None \<and> load_partial ld = Some p \<longrightarrow>
      (callbacks (fst (checkCallback s ld)) \<noteq> [] \<longleftrightarrow>
         partial s \<and> p \<noteq> [] \<and> \<not> (filterText s \<and> p \<in> set (textFilters s)))
      \<and> (partial s \<and> p \<noteq> [] \<and> \<not> (filterText s \<and> p \<in> set (textFilters s)) \<longrightarrow>
            callbacks (fst (checkCallback s ld)) = [(p, None, False)]))
   \<and> (load_text ld \<noteq> None \<longrightarrow> checkCallback (s\<lparr>partial := b\<rparr>) ld = checkCallback s ld)"
proof (intro conjI impI)
  assume "load_text ld = None \<and> load_partial ld = Some p"
  then show "callbacks (fst (checkCallback s ld)) \<noteq> [] \<longleftrightarrow>
         partial s \<and> p \<noteq> [] \<and> \<not> (filterText s \<and> p \<in> set (textFilters s))"
    by (simp add: checkCallback_partial)
next
  assume "load_text ld = None \<and> load_partial ld = Some p"
    and "partial s \<and> p \<noteq> [] \<and> \<not> (filterText s \<and> p \<in> set (textFilters s))"
  then show "callbacks (fst (checkCallback s ld)) = [(p, None, False)]"
    by (simp add: checkCallback_partial)
next
  assume "load_text ld \<noteq> None"
  then obtain t where t: "load_text ld = Some t" by auto
  have "speakerCheck (s\<lparr>partial := b\<rparr>) ld = speakerCheck s ld"
    by (rule speakerCheck_cong) simp_all
  then show "checkCallback (s\<lparr>partial := b\<rparr>) ld = checkCallback s ld"
    by (simp add: checkCallback_final [OF t] cong: option.case_cong sum.case_cong)
qed

text \<open>
  With \<^verbatim>\<open>partial\<close> mode on, a partial result with the empty text (what the recogniser
  emits during silence) is not dispatched: the flag alone does not decide the dispatch.
\<close>

theorem C5_counterexample:
  "load_text \<lparr>load_text = None, load_partial = Some '''', load_spk = None\<rparr> = None
   \<and> partial (Speech_init (default_args\<lparr>arg_partial := True\<rparr>))
   \<and> callbacks (fst (checkCallback (Speech_init (default_args\<lparr>arg_partial := True\<rparr>))
        \<lparr>load_text = None, load_partial = Some '''', load_spk = None\<rparr>)) = []"
  by (simp add: run_defs)

text \<open>
  The amended statement on a partial result with the flag on and off, and on a final
  result with the flag changed.
\<close>

theorem C5_partial_dispatch_witness:
  "callbacks (fst (checkCallback (Speech_init (default_args\<lparr>arg_partial := True\<rparr>))
        \<lparr>load_text = None, load_partial = Some ''hel'', load_spk = None\<rparr>))
     = [(''hel'', None, False)]
   \<and> callbacks (fst (checkCallback (Speech_init default_args)
        \<lparr>load_text = None, load_partial = Some ''hel'', load_spk = None\<rparr>)) = []
   \<and> checkCallback ((Speech_init default_args)\<lparr>partial := True\<rparr>)
        \<lparr>load_text = Some ''hello'', load_partial = None, load_spk = None\<rparr>
     = checkCallback (Speech_init default_args)
        \<lparr>load_text = Some ''hello'', load_partial = None, load_spk = None\<rparr>"
proof -
  let ?on = "(Speech_init (default_args\<lparr>arg_partial := True\<rparr>)) :: real list session"
  let ?off = "(Speech_init default_args) :: real list session"
  let ?p = "\<lparr>load_text = None, load_partial = Some ''hel'', load_spk = None\<rparr> :: real list load"
  let ?f = "\<lparr>load_text = Some ''hello'', load_partial = None, load_spk = None\<rparr> :: real list load"
  have on: "partial ?on \<and> ''hel'' \<noteq> [] \<and> \<not> (filterText ?on \<and> ''hel'' \<in> set (textFilters ?on))"
    by (simp add: run_defs)
  have off: "\<not> partial ?off"
    by (simp add: run_defs)
  have p: "load_text ?p = None \<and> load_partial ?p = Some ''hel''" by simp
  have f: "load_text ?f \<noteq> None" by simp
  show ?thesis
    using on off p f C5_partial_dispatch [of ?p "''hel''" ?on]
      C5_partial_dispatch [of ?p "''hel''" ?off] C5_partial_dispatch [of ?f _ ?off True]
    by simp
qed

subsection \<open>The text filter\<close>

text \<open>
  Claim C6, as amended. When \<^verbatim>\<open>filterText\<close> is set, no call of the callback made for a
  result, final or partial, carries a text that is an element of the filter list.
\<close>

theorem C6_filtered_text_never_dispatched:
  "filterText s \<Longrightarrow>
   \<forall>c \<in> set (callbacks (fst (checkCallback s ld))). fst c \<notin> set (textFilters s)"
proof (cases "load_text ld")
  case None
  assume "filterText s"
  then show ?thesis
    by (simp add: checkCallback_partial [OF None] split: option.splits)
next
  case (Some t)
  assume "filterText s"
  then show ?thesis
    using callbacks_speakerCheck [of s ld]
    by (simp add: checkCallback_final [OF Some] callbacks_append split: option.splits sum.splits)
qed

text \<open>
  With \<^verbatim>\<open>filterText\<close> off the list is not consulted: the final text \<^verbatim>\<open>huh\<close>, an element
  of the list, reaches the callback.
\<close>

theorem C6_counterexample:
  "''huh'' \<in> set (textFilters (Speech_init (default_args\<lparr>arg_filterText := False\<rparr>)))
   \<and> callbacks (fst (checkCallback (Speech_init (default_args\<lparr>arg_filterText := False\<rparr>))
        \<lparr>load_text = Some ''huh'', load_partial = None, load_spk = None\<rparr>))
      = [(''huh'', None, True)]"
  by (simp add: run_defs)

text \<open>The amended statement on the default session, with a call that is made.\<close>

theorem C6_filtered_text_never_dispatched_witness:
  "filterText (Speech_init default_args)
   \<and> callbacks (fst (checkCallback (Speech_init default_args)
        \<lparr>load_text = Some ''hello'', load_partial = None, load_spk = None\<rparr>))
      = [(''hello'', None, True)]
   \<and> ''hello'' \<notin> set (textFilters (Speech_init default_args))
   \<and> callbacks (fst (checkCallback (Speech_init default_args)
        \<lparr>load_text = Some ''huh'', load_partial = None, load_spk = None\<rparr>)) = []"
proof -
  let ?s = "(Speech_init default_args) :: real list session"
  let ?ld = "\<lparr>load_text = Some ''hello'', load_partial = None, load_spk = None\<rparr> :: real list load"
  have h: "filterText ?s" by (simp add: run_defs)
  have c: "callbacks (fst (checkCallback ?s ?ld)) = [(''hello'', None, True)]"
    by (simp add: run_defs)
  have n: "callbacks (fst (checkCallback ?s
        \<lparr>load_text = Some ''huh'', load_partial = None, load_spk = None\<rparr>)) = []"
    by (simp add: run_defs)
  show ?thesis
    using h c n C6_filtered_text_never_dispatched [OF h, of ?ld] by (simp add: run_defs)
qed

text \<open>
  Claim C7, as amended. \<^verbatim>\<open>addFilterWords\<close> appends its words to the filter list and
  leaves \<^verbatim>\<open>filterText\<close> as it was. The filter compares whole strings: on a newly
  constructed session with \<^verbatim>\<open>filterText\<close> set, after \<^verbatim>\<open>addFilterWords(["echo"])\<close> a final
  result with the text \<^verbatim>\<open>echo\<close> causes no call; on any newly constructed session, after
  \<^verbatim>\<open>addFilterWords(["echo"])\<close> a final result with the text \<^verbatim>\<open>echo\<close> followed by a space
  is dispatched, with no speaker model by one call with speaker none, and with a speaker
  model, when the matcher returns, by one call with the name it returns.
\<close>

theorem C7_addFilterWords_exact_match:
  "textFilters (addFilterWords s ws) = textFilters s @ ws
   \<and> filterText (addFilterWords s ws) = filterText s
   \<and> (arg_filterText a \<longrightarrow> load_text ld = Some ''echo'' \<longrightarrow>
        checkCallback (addFilterWords (Speech_init a) [''echo'']) ld = ([], Inr ()))
   \<and> (arg_speakModel a = None \<longrightarrow> load_text ld = Some ''echo '' \<longrightarrow>
        checkCallback (addFilterWords (Speech_init a) [''echo'']) ld
          = ([Callback ''echo '' None True], Inr ()))
   \<and> (arg_speakModel a \<noteq> None \<longrightarrow> load_text ld = Some ''echo '' \<longrightarrow>
        snd (speakerCheck (addFilterWords (Speech_init a) [''echo'']) ld) = Inr speaker \<longrightarrow>
        callbacks (fst (checkCallback (addFilterWords (Speech_init a) [''echo'']) ld))
          = [(''echo '', speaker, True)])"
proof (intro conjI impI)
  show "textFilters (addFilterWords s ws) = textFilters s @ ws"
    by (simp add: addFilterWords_def)
  show "filterText (addFilterWords s ws) = filterText s"
    by (simp add: addFilterWords_def)
next
  assume "arg_filterText a" and t: "load_text ld = Some ''echo''"
  then show "checkCallback (addFilterWords (Speech_init a) [''echo'']) ld = ([], Inr ())"
    by (simp add: checkCallback_final [OF t] addFilterWords_def Speech_init_def)
next
  assume "arg_speakModel a = None" and t: "load_text ld = Some ''echo ''"
  then show "checkCallback (addFilterWords (Speech_init a) [''echo'']) ld
          = ([Callback ''echo '' None True], Inr ())"
    by (simp add: checkCallback_final [OF t] addFilterWords_def Speech_init_def)
next
  let ?s = "(addFilterWords (Speech_init a) [''echo'']) :: real list session"
  assume m: "arg_speakModel a \<noteq> None" and t: "load_text ld = Some ''echo ''"
    and sp: "snd (speakerCheck ?s ld) = Inr speaker"
  have f: "''echo '' \<notin> set (textFilters ?s)" and k: "spkModel ?s \<noteq> None"
    using m by (simp_all add: addFilterWords_def Speech_init_def)
  show "callbacks (fst (checkCallback ?s ld)) = [(''echo '', speaker, True)]"
    using f k sp callbacks_speakerCheck [of ?s ld]
    by (auto simp: checkCallback_final [OF t] callbacks_append)
qed

text \<open>
  The claim as first stated names neither condition. With \<^verbatim>\<open>filterText\<close> off, the text
  \<^verbatim>\<open>echo\<close> is dispatched although it has been added to the list. With a speaker model, a
  registered reference of two components and an embedding of one, the matcher raises and
  the text \<^verbatim>\<open>echo\<close> followed by a space is not dispatched.
\<close>

theorem C7_counterexample:
  "''echo'' \<in> set (textFilters (addFilterWords
        (Speech_init (default_args\<lparr>arg_filterText := False\<rparr>)) [''echo'']))
   \<and> checkCallback
        (addFilterWords (Speech_init (default_args\<lparr>arg_filterText := False\<rparr>)) [''echo''])
        \<lparr>load_text = Some ''echo'', load_partial = None, load_spk = None\<rparr>
      = ([Callback ''echo'' None True], Inr ())
   \<and> checkCallback
        (addFilterWords (Speech_init (default_args
           \<lparr>arg_speakModel := Some ''spk'', arg_signatures := [(''A'', [1, 0])]\<rparr>)) [''echo''])
        \<lparr>load_text = Some ''echo '', load_partial = None, load_spk = Some [1]\<rparr>
      = ([], Inl ValueError)"
  by (simp add: run_defs)

text \<open>The amended statement: the scenario on the default session.\<close>

theorem C7_addFilterWords_exact_match_witness:
  "arg_filterText default_args \<and> arg_speakModel default_args = None
   \<and> textFilters (addFilterWords (Speech_init default_args) [''echo''])
        = [''huh'', ''by'', ''but'', ''echo'']
   \<and> checkCallback (addFilterWords (Speech_init default_args) [''echo''])
        \<lparr>load_text = Some ''echo'', load_partial = None, load_spk = None\<rparr> = ([], Inr ())
   \<and> checkCallback (addFilterWords (Speech_init default_args) [''echo''])
        \<lparr>load_text = Some ''echo '', load_partial = None, load_spk = None\<rparr>
        = ([Callback ''echo '' None True], Inr ())"
proof -
  let ?a = "default_args :: real list init_args"
  let ?s = "Speech_init ?a"
  let ?e = "\<lparr>load_text = Some ''echo'', load_partial = None, load_spk = None\<rparr> :: real list load"
  let ?e' = "\<lparr>load_text = Some ''echo '', load_partial = None, load_spk = None\<rparr> :: real list load"
  have h: "arg_filterText ?a" "arg_speakModel ?a = None"
    by (simp_all add: default_args_def)
  have t: "load_text ?e = Some ''echo''" "load_text ?e' = Some ''echo ''"
    by simp_all
  have l: "textFilters ?s = [''huh'', ''by'', ''but'']"
    by (simp add: Speech_init_def)
  show ?thesis
    using h t l
      C7_addFilterWords_exact_match [of ?s "[''echo'']" ?a ?e]
      C7_addFilterWords_exact_match [of ?s "[''echo'']" ?a ?e']
    by (simp add: default_args_def Speech_init_def addFilterWords_def)
qed

subsection \<open>Partial results and the speaker matcher\<close>

text \<open>
  Claim C8. For a payload without the key \<^verbatim>\<open>text\<close>, every call of the callback has speaker
  none and \<^verbatim>\<open>isFull\<close> false. The speaker matcher is not run: the run has no event other
  than such a call, it never ends in an error, and it is the same run whatever the speaker
  model, the registry, the threshold, the two print flags and the embedding of the
  payload are.
\<close>

theorem C8_partial_no_speaker:
  assumes "load_text ld = None"
  shows "(\<forall>c \<in> set (callbacks (fst (checkCallback s ld))). fst (snd c) = None \<and> \<not> snd (snd c))
       \<and> (\<forall>ev \<in> set (fst (checkCallback s ld)). \<exists>t. ev = Callback t None False)
       \<and> snd (checkCallback s ld) = Inr ()
       \<and> checkCallback
            (s\<lparr>spkModel := m, speakSigs := sigs, maxSpeakDist := thr,
               printUnknownSigs := pu, verbose := vb\<rparr>) (ld\<lparr>load_spk := emb\<rparr>)
          = checkCallback s ld"
proof -
  have "load_text (ld\<lparr>load_spk := emb\<rparr>) = None"
    using assms by simp
  then show ?thesis
    by (simp add: checkCallback_partial checkCallback_partial [OF assms] split: option.splits)
qed

text \<open>
  A dispatched partial result on a session with a speaker model, and an embedding on which
  the matcher would raise.
\<close>

theorem C8_partial_no_speaker_witness:
  "load_text \<lparr>load_text = None, load_partial = Some ''hel'', load_spk = Some [1]\<rparr> = None
   \<and> spkModel (Speech_init (default_args
        \<lparr>arg_partial := True, arg_speakModel := Some ''spk'',
          arg_signatures := [(''A'', [1, 0])]\<rparr>)) = Some ''spk''
   \<and> checkCallback (Speech_init (default_args
        \<lparr>arg_partial := True, arg_speakModel := Some ''spk'',
          arg_signatures := [(''A'', [1, 0])]\<rparr>))
        \<lparr>load_text = None, load_partial = Some ''hel'', load_spk = Some [1]\<rparr>
      = ([Callback ''hel'' None False], Inr ())"
proof -
  let ?s = "(Speech_init (default_args
        \<lparr>arg_partial := True, arg_speakModel := Some ''spk'',
          arg_signatures := [(''A'', [1, 0])]\<rparr>)) :: real list session"
  let ?ld = "\<lparr>load_text = None, load_partial = Some ''hel'', load_spk = Some [1]\<rparr> :: real list load"
  have h: "load_text ?ld = None" by simp
  show ?thesis
    using h C8_partial_no_speaker [OF h, of ?s] by (simp add: run_defs)
qed

subsection \<open>A newly constructed session\<close>

text \<open>
  Claim C10. Whatever the arguments, the constructor sets the filter list to
  \<^verbatim>\<open>["huh", "by", "but"]\<close>; the default of \<^verbatim>\<open>filterText\<close> is true. So on a session
  constructed with \<^verbatim>\<open>filterText\<close> at its default, a final result whose text is one of the
  three words causes no event at all.
\<close>

theorem C10_default_filters:
  "textFilters (Speech_init a) = [''huh'', ''by'', ''but'']
   \<and> arg_filterText default_args
   \<and> filterText (Speech_init default_args)
   \<and> (arg_filterText a = arg_filterText default_args \<longrightarrow>
        load_text ld = Some t \<longrightarrow> t \<in> {''huh'', ''by'', ''but''} \<longrightarrow>
        checkCallback (Speech_init a) ld = ([], Inr ()))"
proof (intro conjI impI)
  show "textFilters (Speech_init a) = [''huh'', ''by'', ''but'']"
    by (simp add: Speech_init_def)
  show "arg_filterText default_args"
    by (simp add: default_args_def)
  show "filterText (Speech_init default_args)"
    by (simp add: Speech_init_def default_args_def)
next
  assume "arg_filterText a = arg_filterText default_args"
    and t: "load_text ld = Some t" and "t \<in> {''huh'', ''by'', ''but''}"
  then show "checkCallback (Speech_init a) ld = ([], Inr ())"
    by (auto simp: checkCallback_final [OF t] Speech_init_def default_args_def)
qed

text \<open>The default session on the final text \<^verbatim>\<open>by\<close>.\<close>

theorem C10_default_filters_witness:
  "load_text \<lparr>load_text = Some ''by'', load_partial = None, load_spk = None\<rparr> = Some ''by''
   \<and> ''by'' \<in> {''huh'', ''by'', ''but''}
   \<and> checkCallback (Speech_init default_args)
        \<lparr>load_text = Some ''by'', load_partial = None, load_spk = None\<rparr> = ([], Inr ())"
proof -
  let ?ld = "\<lparr>load_text = Some ''by'', load_partial = None, load_spk = None\<rparr> :: real list load"
  have t: "load_text ?ld = Some ''by''" by simp
  have m: "''by'' \<in> {''huh'', ''by'', ''but''}" by simp
  show ?thesis
    using t m C10_default_filters [of "default_args :: real list init_args" ?ld "''by''"]
    by (simp add: default_args_def Speech_init_def)
qed

subsection \<open>Determinism of the speaker matcher\<close>

text \<open>
  Claim C9. The cosine distance is a function of its two vectors only: the object it is
  called on does not matter. The name (or none, or the error) that the speaker matcher
  returns is a function of the registry, the threshold and the embedding only: two runs
  on sessions and payloads that agree on these three return the same, whatever the rest
  of the session and of the payload.
\<close>

theorem C9_speaker_match_deterministic:
  "cosineDist s1 x y = cosineDist s2 x y
   \<and> (speakSigs s1 = speakSigs s2 \<longrightarrow> maxSpeakDist s1 = maxSpeakDist s2 \<longrightarrow>
        load_spk ld1 = load_spk ld2 \<longrightarrow>
        snd (speakerCheck s1 ld1) = snd (speakerCheck s2 ld2))"
proof (intro conjI impI)
  show "cosineDist s1 x y = cosineDist s2 x y"
    by (simp add: cosineDist_def)
next
  assume eq: "speakSigs s1 = speakSigs s2" "maxSpeakDist s1 = maxSpeakDist s2"
    "load_spk ld1 = load_spk ld2"
  show "snd (speakerCheck s1 ld1) = snd (speakerCheck s2 ld2)"
  proof (cases "load_spk ld2")
    case None
    with eq show ?thesis by (simp add: speakerCheck_def)
  next
    case (Some e)
    let ?m = "pf_mult (maxSpeakDist s2) (Fin 2)"
    have loop: "snd (speakerLoop s1 e (speakSigs s2) ?m None)
                  = snd (speakerLoop s2 e (speakSigs s2) ?m None)"
      by (rule snd_speakerLoop_cong)
    obtain ev1 r where r1: "speakerLoop s1 e (speakSigs s2) ?m None = (ev1, r)"
      by (cases "speakerLoop s1 e (speakSigs s2) ?m None")
    with loop obtain ev2 where r2: "speakerLoop s2 e (speakSigs s2) ?m None = (ev2, r)"
      by (cases "speakerLoop s2 e (speakSigs s2) ?m None") auto
    show ?thesis
      using eq Some r1 r2 by (simp add: speakerCheck_def split: sum.splits prod.splits)
  qed
qed

text \<open>
  Two sessions that differ in the print flags, the filter and the speaker model path, and
  two payloads that differ in the text: the events differ, the name returned does not.
\<close>

theorem C9_speaker_match_deterministic_witness:
  "snd (speakerCheck
      (Speech_init (default_args\<lparr>arg_signatures := [(''A'', [1, 0]), (''B'', [0, 1])],
         arg_verbose := True\<rparr>))
      \<lparr>load_text = Some ''hi'', load_partial = None, load_spk = Some [0, 2]\<rparr>)
   = snd (speakerCheck
      (Speech_init (default_args\<lparr>arg_signatures := [(''A'', [1, 0]), (''B'', [0, 1])],
         arg_filterText := False, arg_speakModel := Some ''spk''\<rparr>))
      \<lparr>load_text = Some ''there'', load_partial = None, load_spk = Some [0, 2]\<rparr>)
   \<and> snd (speakerCheck
      (Speech_init (default_args\<lparr>arg_signatures := [(''A'', [1, 0]), (''B'', [0, 1])],
         arg_verbose := True\<rparr>))
      \<lparr>load_text = Some ''hi'', load_partial = None, load_spk = Some [0, 2]\<rparr>)
     = Inr (Some ''B'')
   \<and> fst (speakerCheck
      (Speech_init (default_args\<lparr>arg_signatures := [(''A'', [1, 0]), (''B'', [0, 1])],
         arg_verbose := True\<rparr>))
      \<lparr>load_text = Some ''hi'', load_partial = None, load_spk = Some [0, 2]\<rparr>)
     = [PrintDistance ''A'' (Fin 1), PrintDistance ''B'' (Fin 0)]
   \<and> fst (speakerCheck
      (Speech_init (default_args\<lparr>arg_signatures := [(''A'', [1, 0]), (''B'', [0, 1])],
         arg_filterText := False, arg_speakModel := Some ''spk''\<rparr>))
      \<lparr>load_text = Some ''there'', load_partial = None, load_spk = Some [0, 2]\<rparr>) = []"
proof -
  let ?s1 = "(Speech_init (default_args\<lparr>arg_signatures := [(''A'', [1, 0]), (''B'', [0, 1])],
         arg_verbose := True\<rparr>)) :: real list session"
  let ?s2 = "(Speech_init (default_args\<lparr>arg_signatures := [(''A'', [1, 0]), (''B'', [0, 1])],
         arg_filterText := False, arg_speakModel := Some ''spk''\<rparr>)) :: real list session"
  let ?l1 = "\<lparr>load_text = Some ''hi'', load_partial = None, load_spk = Some [0, 2]\<rparr> :: real list load"
  let ?l2 = "\<lparr>load_text = Some ''there'', load_partial = None, load_spk = Some [0, 2]\<rparr> :: real list load"
  have h: "speakSigs ?s1 = speakSigs ?s2" "maxSpeakDist ?s1 = maxSpeakDist ?s2"
    "load_spk ?l1 = load_spk ?l2"
    by (simp_all add: Speech_init_def)
  have same: "snd (speakerCheck ?s1 ?l1) = snd (speakerCheck ?s2 ?l2)"
    using h C9_speaker_match_deterministic [of ?s1 _ _ ?s2 ?l1 ?l2] by blast
  have v: "snd (speakerCheck ?s1 ?l1) = Inr (Some ''B'')"
    "fst (speakerCheck ?s1 ?l1) = [PrintDistance ''A'' (Fin 1), PrintDistance ''B'' (Fin 0)]"
    "fst (speakerCheck ?s2 ?l2) = []"
    by (simp_all add: run_defs)
  show ?thesis
    using same v by simp
qed

end
